theory Spec2Isabelle
  imports Complex_Main
begin

section \<open>Tensors\<close>

text \<open>
  The notebook computes with dense tensors of the two libraries it imports. A tensor is
  its shape and its entries in row-major order, which is how both libraries lay a dense
  array out; \<open>reshape\<close> keeps the entries and changes the shape. Entries are exact
  reals: rounding is not modelled. The arithmetic is written for operands whose shapes
  fit, as every call of the notebook has them; where a library would raise on a mismatch,
  the theorems below carry the shapes as hypotheses. The reads that can fail on
  well-shaped data (a column of the eigenvector matrix, an entry of a Python list,
  \<open>set_weights\<close>) return an error value.
\<close>

datatype py_error = IndexError | ValueError

record 'a tensor =
  shape :: "nat list"
  vals :: "'a list"

definition wf_tensor :: "'a tensor \<Rightarrow> bool" where
  "wf_tensor t = (length (vals t) = prod_list (shape t))"

text \<open>Row-major position of a multi-index, and its inverse.\<close>

fun ravel :: "nat list \<Rightarrow> nat list \<Rightarrow> nat" where
  "ravel (d # ds) (i # js) = i * prod_list ds + ravel ds js"
| "ravel _ _ = 0"

fun unravel :: "nat list \<Rightarrow> nat \<Rightarrow> nat list" where
  "unravel [] k = []"
| "unravel (d # ds) k = (k div prod_list ds) # unravel ds (k mod prod_list ds)"

definition tget :: "'a tensor \<Rightarrow> nat list \<Rightarrow> 'a" where
  "tget t idx = vals t ! ravel (shape t) idx"

definition reshape :: "'a tensor \<Rightarrow> nat list \<Rightarrow> 'a tensor" where
  "reshape t s = \<lparr>shape = s, vals = vals t\<rparr>"

fun stack :: "'a tensor list \<Rightarrow> 'a tensor" where
  "stack [] = \<lparr>shape = [0], vals = []\<rparr>"
| "stack (t # ts) = \<lparr>shape = length (t # ts) # shape t, vals = concat (map vals (t # ts))\<rparr>"

definition zeros :: "nat list \<Rightarrow> 'a::zero tensor" where
  "zeros s = \<lparr>shape = s, vals = replicate (prod_list s) 0\<rparr>"

definition tmap :: "('a \<Rightarrow> 'b) \<Rightarrow> 'a tensor \<Rightarrow> 'b tensor" where
  "tmap g t = \<lparr>shape = shape t, vals = map g (vals t)\<rparr>"

definition lsum :: "'a::{plus,zero} list \<Rightarrow> 'a" where
  "lsum xs = foldr (+) xs 0"

text \<open>
  \<open>a + b\<close> on tensors where the shape of \<open>b\<close> is a suffix of the shape of \<open>a\<close>
  (equal shapes, or a bias vector added to every row of a batch): entry \<open>k\<close> of \<open>b\<close>
  is reused every \<open>length (vals b)\<close> positions.
\<close>

definition tadd :: "'a::plus tensor \<Rightarrow> 'a tensor \<Rightarrow> 'a tensor" where
  "tadd a b = \<lparr>shape = shape a,
     vals = map (\<lambda>k. vals a ! k + vals b ! (k mod length (vals b))) [0..<length (vals a)]\<rparr>"

definition smul :: "'a::times \<Rightarrow> 'a tensor \<Rightarrow> 'a tensor" where
  "smul c t = \<lparr>shape = shape t, vals = map (\<lambda>x. c * x) (vals t)\<rparr>"

definition matmul :: "'a::{plus,times,zero} tensor \<Rightarrow> 'a tensor \<Rightarrow> 'a tensor" where
  "matmul a b =
     (let p = shape a ! 0; q = shape a ! 1; r = shape b ! 1
      in \<lparr>shape = [p, r],
          vals = concat (map (\<lambda>i. map (\<lambda>j.
                   lsum (map (\<lambda>k. vals a ! (i * q + k) * vals b ! (k * r + j)) [0..<q]))
                   [0..<r]) [0..<p])\<rparr>)"

definition pos :: "'a \<Rightarrow> 'a list \<Rightarrow> nat" where
  "pos x xs = length (takeWhile (\<lambda>y. y \<noteq> x) xs)"

text \<open>Axis permutation: axis \<open>a\<close> of the result is axis \<open>perm ! a\<close> of the argument.\<close>

definition transpose_t :: "'a tensor \<Rightarrow> nat list \<Rightarrow> 'a tensor" where
  "transpose_t t perm =
     (let s' = map (\<lambda>a. shape t ! a) perm
      in \<lparr>shape = s',
          vals = map (\<lambda>k. let j = unravel s' k
                           in tget t (map (\<lambda>b. j ! pos b perm) [0..<length perm]))
                     [0..<prod_list s']\<rparr>)"

text \<open>
  \<open>tf.tensordot(a, b, [axes_a, axes_b])\<close> as the library computes it: each argument is
  transposed so that its contracted axes stand together (last for \<open>a\<close>, first for
  \<open>b\<close>), flattened to a matrix, the matrices are multiplied, and the product is
  reshaped to the free dimensions of \<open>a\<close> followed by those of \<open>b\<close>.
\<close>

definition tensordot_reshape :: "'a tensor \<Rightarrow> nat list \<Rightarrow> bool \<Rightarrow> 'a tensor \<times> nat list" where
  "tensordot_reshape a axes flipped =
     (let shape_a = shape a;
          free = filter (\<lambda>i. i \<notin> set axes) [0..<length shape_a];
          free_dims = map (\<lambda>i. shape_a ! i) free;
          prod_free = prod_list free_dims;
          prod_axes = prod_list (map (\<lambda>i. shape_a ! i) axes);
          perm = (if flipped then axes @ free else free @ axes);
          new_shape = (if flipped then [prod_axes, prod_free] else [prod_free, prod_axes]);
          a_trans = (if perm \<noteq> [0..<length shape_a] then transpose_t a perm else a)
      in (reshape a_trans new_shape, free_dims))"

definition tensordot :: "'a::{plus,times,zero} tensor \<Rightarrow> 'a tensor \<Rightarrow> nat list \<Rightarrow> nat list \<Rightarrow> 'a tensor" where
  "tensordot a b axes_a axes_b =
     (let (a_reshape, a_free_dims) = tensordot_reshape a axes_a False;
          (b_reshape, b_free_dims) = tensordot_reshape b axes_b True;
          ab_matmul = matmul a_reshape b_reshape
      in reshape ab_matmul (a_free_dims @ b_free_dims))"

section \<open>Choice of the two directions\<close>

text \<open>
  \<open>np.argmax\<close>: the position of the first occurrence of the largest entry; an empty
  array raises. On a Boolean mask this is the position of the first \<open>True\<close>, and 0
  when the mask has none.
\<close>

definition argmax :: "'a::linorder list \<Rightarrow> py_error + nat" where
  "argmax xs = (if xs = [] then Inl ValueError
                else Inr (length (takeWhile (\<lambda>x. x \<noteq> Max (set xs)) xs)))"

text \<open>
  \<open>v[:, j]\<close> on a matrix: a negative \<open>j\<close> counts from the last column, and a column
  outside \<open>-c \<le> j < c\<close> raises IndexError.
\<close>

definition column :: "'a tensor \<Rightarrow> nat \<Rightarrow> 'a tensor" where
  "column v j = \<lparr>shape = [shape v ! 0],
                 vals = map (\<lambda>i. vals v ! (i * (shape v ! 1) + j)) [0..<shape v ! 0]\<rparr>"

definition get_col :: "'a tensor \<Rightarrow> int \<Rightarrow> py_error + 'a tensor" where
  "get_col v j =
     (let c = int (shape v ! 1);
          j' = (if j < 0 then j + c else j)
      in if 0 \<le> j' \<and> j' < c then Inr (column v (nat j')) else Inl IndexError)"

definition threshold :: real where
  "threshold = 1 / 10 ^ 6"

text \<open>\<open>index = np.argmax(w<1e-6)\<close>\<close>

definition index :: "real list \<Rightarrow> py_error + nat" where
  "index w = argmax (map (\<lambda>x. x < threshold) w)"

text \<open>\<open>direction_vectors = tf.stack([v[:,index-1], v[:,index+1]])\<close>\<close>

definition direction_vectors :: "real list \<Rightarrow> real tensor \<Rightarrow> py_error + real tensor" where
  "direction_vectors w v =
     (case index w of Inl err \<Rightarrow> Inl err
      | Inr idx \<Rightarrow>
        (case get_col v (int idx - 1) of Inl err \<Rightarrow> Inl err
         | Inr d1 \<Rightarrow>
           (case get_col v (int idx + 1) of Inl err \<Rightarrow> Inl err
            | Inr d2 \<Rightarrow> Inr (stack [d1, d2]))))"

definition nb_directions :: "'a tensor \<Rightarrow> nat" where
  "nb_directions dv = shape dv ! 0"

text \<open>
  The selection as the specification words it: the first eigenvalue that exceeds the
  threshold.
\<close>

definition spec_first_exceeding :: "real list \<Rightarrow> nat" where
  "spec_first_exceeding w = length (takeWhile (\<lambda>x. \<not> threshold < x) w)"

section \<open>Coefficients of the expansion\<close>

text \<open>The unit vectors \<open>e\<close> and \<open>f\<close> of the notebook and the kernels built from them.\<close>

definition e_vec :: "real tensor" where
  "e_vec = \<lparr>shape = [2], vals = [1, 0]\<rparr>"

definition f_vec :: "real tensor" where
  "f_vec = \<lparr>shape = [2], vals = [0, 1]\<rparr>"

definition e2 :: "real tensor" where
  "e2 = tensordot (reshape e_vec [1, 2]) (reshape e_vec [1, 2]) [0] [0]"

definition coeff_T2 :: "real tensor \<Rightarrow> real tensor" where
  "coeff_T2 T2 = smul (1 / 2) (tensordot T2 e2 [0, 1] [0, 1])"

definition f2 :: "real tensor" where
  "f2 = tensordot (reshape f_vec [1, 2]) (reshape f_vec [1, 2]) [0] [0]"

definition ef2 :: "real tensor" where
  "ef2 = tensordot (reshape e_vec [1, 2]) (reshape f2 [1, 2, 2]) [0] [0]"

definition coeff_T3 :: "real tensor \<Rightarrow> real tensor" where
  "coeff_T3 T3 = smul (1 / 2) (tensordot T3 ef2 [0, 1, 2] [0, 1, 2])"

definition f4 :: "real tensor" where
  "f4 = tensordot (reshape f2 [1, 2, 2]) (reshape f2 [1, 2, 2]) [0] [0]"

definition coeff_T4 :: "real tensor \<Rightarrow> real tensor" where
  "coeff_T4 T4 = smul (1 / 24) (tensordot T4 f4 [0, 1, 2, 3] [0, 1, 2, 3])"

section \<open>Layers and models\<close>

text \<open>
  The operations that differ between running a model on numbers and recording it for
  differentiation: how a float constant enters the computation, the rectifier, the
  exponential and the logarithm. Everything else is sums and products.
\<close>

record 'a backend =
  b_const :: "real \<Rightarrow> 'a"
  b_relu :: "'a \<Rightarrow> 'a"
  b_exp :: "'a \<Rightarrow> 'a"
  b_log :: "'a \<Rightarrow> 'a"

definition relu :: "real \<Rightarrow> real" where
  "relu x = max 0 x"

definition numeric :: "real backend" where
  "numeric = \<lparr>b_const = (\<lambda>x. x), b_relu = relu, b_exp = exp, b_log = ln\<rparr>"

text \<open>The activation identifier \<open>'relu'\<close>; \<open>activation=None\<close> is \<open>None\<close>.\<close>

datatype activation = ReLU

fun activation_fn :: "'a backend \<Rightarrow> activation \<Rightarrow> 'a \<Rightarrow> 'a" where
  "activation_fn bk ReLU = b_relu bk"

text \<open>
  A built layer with its weights. \<open>Dense units activation kernel bias\<close>;
  \<open>CustomLayer x_star direction_vectors activation kernel\<close>, with the fields of the
  notebook's class.
\<close>

datatype 'a layer =
    Flatten
  | Dense nat "activation option" "'a tensor" "'a tensor"
  | CustomLayer "'a tensor list" "'a tensor" "activation option" "'a tensor"

text \<open>\<open>layer.weights\<close>, in the order the layer created them.\<close>

fun weights :: "'a layer \<Rightarrow> 'a tensor list" where
  "weights Flatten = []"
| "weights (Dense units a kern bias) = [kern, bias]"
| "weights (CustomLayer xs dvs a kern) = [kern]"

text \<open>\<open>layer.set_weights\<close>: the number of arrays and their shapes must match, else it raises.\<close>

fun set_weights :: "'a layer \<Rightarrow> 'a tensor list \<Rightarrow> py_error + 'a layer" where
  "set_weights Flatten ws = (if ws = [] then Inr Flatten else Inl ValueError)"
| "set_weights (Dense units a kern bias) ws =
     (case ws of
        [k, b] \<Rightarrow> if shape k = shape kern \<and> shape b = shape bias
                  then Inr (Dense units a k b) else Inl ValueError
      | _ \<Rightarrow> Inl ValueError)"
| "set_weights (CustomLayer xs dvs a kern) ws =
     (case ws of
        [k] \<Rightarrow> if shape k = shape kern then Inr (CustomLayer xs dvs a k) else Inl ValueError
      | _ \<Rightarrow> Inl ValueError)"

definition trainable_variables :: "'a layer list \<Rightarrow> 'a tensor list" where
  "trainable_variables layers = concat (map weights layers)"

text \<open>
  \<open>CustomLayer.__init__\<close> reshapes the direction vectors to the shape of the kernel
  matrix \<open>x_star[0]\<close>; \<open>build\<close> creates the weight \<open>kernel\<close> with one entry per
  direction, here with the entries \<open>init\<close> the initializer drew.
\<close>

definition CustomLayer_init :: "'a tensor list \<Rightarrow> 'a tensor \<Rightarrow> activation option \<Rightarrow> 'a list \<Rightarrow> 'a layer" where
  "CustomLayer_init x_star dv a init =
     CustomLayer x_star
       (reshape dv [shape dv ! 0, shape (x_star ! 0) ! 0, shape (x_star ! 0) ! 1])
       a \<lparr>shape = [shape dv ! 0], vals = init\<rparr>"

fun call :: "'a backend \<Rightarrow> 'a::{plus,times,zero} layer \<Rightarrow> 'a tensor \<Rightarrow> 'a tensor" where
  "call bk Flatten inputs = reshape inputs [shape inputs ! 0, prod_list (tl (shape inputs))]"
| "call bk (Dense units a kern bias) inputs =
     (let outputs = tadd (matmul inputs kern) bias
      in case a of None \<Rightarrow> outputs | Some g \<Rightarrow> tmap (activation_fn bk g) outputs)"
| "call bk (CustomLayer x_star dvs a kern) inputs =
     (let outputs = tadd (matmul inputs (tadd (x_star ! 0) (tensordot kern dvs [0] [0])))
                         (x_star ! 1)
      in case a of None \<Rightarrow> outputs | Some g \<Rightarrow> tmap (activation_fn bk g) outputs)"

text \<open>A Sequential model applied to a batch: the layers in order.\<close>

definition sequential :: "'a backend \<Rightarrow> 'a::{plus,times,zero} layer list \<Rightarrow> 'a tensor \<Rightarrow> 'a tensor" where
  "sequential bk layers inputs = fold (call bk) layers inputs"

text \<open>
  The classifier of the notebook after \<open>model.fit\<close>, with whatever weights training
  left in its three Dense layers.
\<close>

definition model :: "'a tensor \<Rightarrow> 'a tensor \<Rightarrow> 'a tensor \<Rightarrow> 'a tensor \<Rightarrow> 'a tensor \<Rightarrow> 'a tensor \<Rightarrow> 'a layer list" where
  "model k1 b1 k2 b2 k3 b3 =
     [Flatten, Dense 16 (Some ReLU) k1 b1, Dense 16 (Some ReLU) k2 b2, Dense 10 None k3 b3]"

text \<open>\<open>x_star = [[weight for weight in layer.weights] for layer in model.layers]\<close>\<close>

definition x_star :: "'a layer list \<Rightarrow> 'a tensor list list" where
  "x_star layers = map weights layers"

text \<open>The shapes the layers get when the model is built on images of \<open>d\<close> pixels.\<close>

definition trained :: "nat \<Rightarrow> 'a tensor \<Rightarrow> 'a tensor \<Rightarrow> 'a tensor \<Rightarrow> 'a tensor \<Rightarrow> 'a tensor \<Rightarrow> 'a tensor \<Rightarrow> bool" where
  "trained d k1 b1 k2 b2 k3 b3 =
     (shape k1 = [d, 16] \<and> shape b1 = [16] \<and> shape k2 = [16, 16] \<and> shape b2 = [16] \<and>
      shape k3 = [16, 10] \<and> shape b3 = [10] \<and>
      wf_tensor k1 \<and> wf_tensor b1 \<and> wf_tensor k2 \<and> wf_tensor b2 \<and> wf_tensor k3 \<and> wf_tensor b3)"

text \<open>Indexing a Python list: negative positions count from the end.\<close>

definition py_get :: "'a list \<Rightarrow> int \<Rightarrow> py_error + 'a" where
  "py_get xs i =
     (if 0 \<le> i \<and> i < int (length xs) then Inr (xs ! nat i)
      else if - int (length xs) \<le> i \<and> i < 0 then Inr (xs ! nat (int (length xs) + i))
      else Inl IndexError)"

definition ebind :: "py_error + 'a \<Rightarrow> ('a \<Rightarrow> py_error + 'b) \<Rightarrow> py_error + 'b" where
  "ebind m k = (case m of Inl err \<Rightarrow> Inl err | Inr x \<Rightarrow> k x)"

text \<open>
  The Sequential of the second model, built by the call \<open>model_c(features)\<close>: its Dense
  layers and the custom layer hold freshly initialised weights \<open>k1'\<close>, \<open>b1'\<close>,
  \<open>t'\<close>, \<open>k3'\<close>, \<open>b3'\<close>.
\<close>

definition model_c_built :: "'a tensor list list \<Rightarrow> 'a tensor \<Rightarrow> 'a tensor \<Rightarrow> 'a tensor \<Rightarrow> 'a list \<Rightarrow> 'a tensor \<Rightarrow> 'a tensor \<Rightarrow> py_error + 'a layer list" where
  "model_c_built xstar dv k1' b1' t' k3' b3' =
     ebind (py_get xstar (- 2)) (\<lambda>l2.
     ebind (py_get l2 0) (\<lambda>W.
     ebind (py_get l2 1) (\<lambda>b.
       Inr [Flatten, Dense 16 (Some ReLU) k1' b1',
            CustomLayer_init [W, b] dv None t',
            Dense 10 None k3' b3'])))"

definition nb_layer :: nat where
  "nb_layer = 2"

text \<open>
  \<open>for k in [i for i in range(len(model_c.layers)) if i != nb_layer]:
     model_c.layers[k].set_weights(x_star[k])\<close>
\<close>

fun assign_weights :: "'a layer list \<Rightarrow> 'a tensor list list \<Rightarrow> nat list \<Rightarrow> py_error + 'a layer list" where
  "assign_weights layers xstar [] = Inr layers"
| "assign_weights layers xstar (k # ks) =
     ebind (py_get xstar (int k)) (\<lambda>ws.
     ebind (set_weights (layers ! k) ws) (\<lambda>l.
       assign_weights (layers[k := l]) xstar ks))"

text \<open>The second model after both assignments of the cell.\<close>

definition model_c :: "'a::zero tensor list list \<Rightarrow> 'a tensor \<Rightarrow> 'a tensor \<Rightarrow> 'a tensor \<Rightarrow> 'a list \<Rightarrow> 'a tensor \<Rightarrow> 'a tensor \<Rightarrow> py_error + 'a layer list" where
  "model_c xstar dv k1' b1' t' k3' b3' =
     ebind (model_c_built xstar dv k1' b1' t' k3' b3') (\<lambda>layers.
     ebind (assign_weights layers xstar (filter (\<lambda>i. i \<noteq> nb_layer) [0..<length layers])) (\<lambda>layers'.
     ebind (set_weights (layers' ! nb_layer) [zeros [nb_directions dv]]) (\<lambda>l.
       Inr (layers'[nb_layer := l]))))"

text \<open>
  \<open>SparseCategoricalCrossentropy(from_logits=True)\<close> on logits of shape \<open>[N, C]\<close> and
  integer labels: the mean over the batch of \<open>log (sum_c exp z_c) - z_y\<close>.
\<close>

definition loss_object :: "'a::{plus,minus,times,zero,inverse} backend \<Rightarrow> nat list \<Rightarrow> 'a tensor \<Rightarrow> 'a" where
  "loss_object bk y_true y_pred =
     (let N = shape y_pred ! 0; C = shape y_pred ! 1
      in lsum (map (\<lambda>s. b_log bk (lsum (map (\<lambda>c. b_exp bk (vals y_pred ! (s * C + c))) [0..<C]))
                         - vals y_pred ! (s * C + y_true ! s)) [0..<N])
         / b_const bk (real N))"

definition loss :: "'a::{plus,minus,times,zero,inverse} backend \<Rightarrow> 'a layer list \<Rightarrow> 'a tensor \<Rightarrow> nat list \<Rightarrow> 'a" where
  "loss bk layers x y = (let y_pred = sequential bk layers x in loss_object bk y y_pred)"

section \<open>Recording a computation and differentiating it\<close>

text \<open>
  Inside \<open>with tf.GradientTape()\<close> every operation on a watched variable is recorded,
  and \<open>gradient\<close> and \<open>jacobian\<close> differentiate what was recorded. A recorded scalar
  is an expression over the entries of the trainable variables: \<open>Var b k\<close> is entry
  \<open>k\<close> (row-major) of variable number \<open>b\<close> of \<open>trainable_variables\<close>. \<open>Step\<close> is the
  factor \<open>x > 0\<close> in the gradient of the rectifier.
\<close>

datatype expr =
    Const real
  | Var nat nat
  | Add expr expr
  | Sub expr expr
  | Mul expr expr
  | Inv expr
  | Relu expr
  | Step expr
  | Exp expr
  | Log expr

instantiation expr :: "{plus,minus,times,zero,inverse}"
begin

definition plus_expr :: "expr \<Rightarrow> expr \<Rightarrow> expr" where
  "plus_expr a b = Add a b"

definition minus_expr :: "expr \<Rightarrow> expr \<Rightarrow> expr" where
  "minus_expr a b = Sub a b"

definition times_expr :: "expr \<Rightarrow> expr \<Rightarrow> expr" where
  "times_expr a b = Mul a b"

definition zero_expr :: expr where
  "zero_expr = Const 0"

definition inverse_expr :: "expr \<Rightarrow> expr" where
  "inverse_expr a = Inv a"

definition divide_expr :: "expr \<Rightarrow> expr \<Rightarrow> expr" where
  "divide_expr a b = Mul a (Inv b)"

instance ..

end

definition tape :: "expr backend" where
  "tape = \<lparr>b_const = Const, b_relu = Relu, b_exp = Exp, b_log = Log\<rparr>"

text \<open>The value of a recorded expression when variable \<open>b\<close> has entries \<open>\<theta> b\<close>.\<close>

fun eval :: "(nat \<Rightarrow> nat \<Rightarrow> real) \<Rightarrow> expr \<Rightarrow> real" where
  "eval \<theta> (Const c) = c"
| "eval \<theta> (Var b k) = \<theta> b k"
| "eval \<theta> (Add u v) = eval \<theta> u + eval \<theta> v"
| "eval \<theta> (Sub u v) = eval \<theta> u - eval \<theta> v"
| "eval \<theta> (Mul u v) = eval \<theta> u * eval \<theta> v"
| "eval \<theta> (Inv u) = inverse (eval \<theta> u)"
| "eval \<theta> (Relu u) = relu (eval \<theta> u)"
| "eval \<theta> (Step u) = (if 0 < eval \<theta> u then 1 else 0)"
| "eval \<theta> (Exp u) = exp (eval \<theta> u)"
| "eval \<theta> (Log u) = ln (eval \<theta> u)"

text \<open>
  The derivative of a recorded expression with respect to a watched entry \<open>x\<close>, by the
  chain rule over the recorded operations; the rectifier passes the gradient where its
  argument is positive, and that factor has gradient zero.
\<close>

fun diff :: "expr \<Rightarrow> expr \<Rightarrow> expr" where
  "diff x (Const c) = Const 0"
| "diff x (Var b k) = Const (if x = Var b k then 1 else 0)"
| "diff x (Add u v) = Add (diff x u) (diff x v)"
| "diff x (Sub u v) = Sub (diff x u) (diff x v)"
| "diff x (Mul u v) = Add (Mul (diff x u) v) (Mul u (diff x v))"
| "diff x (Inv u) = Mul (Sub (Const 0) (Mul (Inv u) (Inv u))) (diff x u)"
| "diff x (Relu u) = Mul (Step u) (diff x u)"
| "diff x (Step u) = Const 0"
| "diff x (Exp u) = Mul (Exp u) (diff x u)"
| "diff x (Log u) = Mul (Inv u) (diff x u)"

text \<open>
  \<open>tape.gradient(target, sources)\<close> for a scalar target: a tensor of the shape of
  \<open>sources\<close>. \<open>tape.jacobian(target, sources)\<close>: a tensor of shape
  \<open>target.shape + sources.shape\<close>.
\<close>

definition gradient :: "expr \<Rightarrow> expr tensor \<Rightarrow> expr tensor" where
  "gradient target sources =
     \<lparr>shape = shape sources, vals = map (\<lambda>x. diff x target) (vals sources)\<rparr>"

definition jacobian :: "expr tensor \<Rightarrow> expr tensor \<Rightarrow> expr tensor" where
  "jacobian target sources =
     \<lparr>shape = shape target @ shape sources,
      vals = concat (map (\<lambda>u. map (\<lambda>x. diff x u) (vals sources)) (vals target))\<rparr>"

text \<open>
  A model as the tape sees it: its trainable weights are the watched variables, numbered
  as in \<open>trainable_variables\<close>; the constants a custom layer holds are constants.
\<close>

definition var_tensor :: "nat \<Rightarrow> nat list \<Rightarrow> expr tensor" where
  "var_tensor b s = \<lparr>shape = s, vals = map (Var b) [0..<prod_list s]\<rparr>"

fun watch_from :: "nat \<Rightarrow> real layer list \<Rightarrow> expr layer list" where
  "watch_from b [] = []"
| "watch_from b (Flatten # ls) = Flatten # watch_from b ls"
| "watch_from b (Dense units a kern bias # ls) =
     Dense units a (var_tensor b (shape kern)) (var_tensor (b + 1) (shape bias))
       # watch_from (b + 2) ls"
| "watch_from b (CustomLayer xs dvs a kern # ls) =
     CustomLayer (map (tmap Const) xs) (tmap Const dvs) a (var_tensor b (shape kern))
       # watch_from (b + 1) ls"

definition watch :: "real layer list \<Rightarrow> expr layer list" where
  "watch layers = watch_from 0 layers"

text \<open>The current values of the variables of a model.\<close>

definition variable_values :: "real layer list \<Rightarrow> nat \<Rightarrow> nat \<Rightarrow> real" where
  "variable_values layers b k = vals (trainable_variables layers ! b) ! k"

text \<open>
  The notebook's \<open>T2_compute(model, inputs, targets, nb)\<close>: the loss is recorded, its
  gradient with respect to variable \<open>nb\<close> is taken and recorded in turn, and the
  Jacobian of that gradient with respect to the same variable is returned, as numbers at
  the current values of the variables.
\<close>

definition T2_compute :: "real layer list \<Rightarrow> real tensor \<Rightarrow> nat list \<Rightarrow> int \<Rightarrow> py_error + real tensor" where
  "T2_compute layers inputs targets nb =
     (let g = watch layers;
          loss_value = loss tape g (tmap Const inputs) targets
      in ebind (py_get (trainable_variables g) nb) (\<lambda>var.
           let grads = gradient loss_value var;
               hess_matrix = jacobian grads var
           in Inr (tmap (eval (variable_values layers)) hess_matrix)))"

text \<open>
  \<open>hessian = T2_compute(model, features, labels, -4)\<close> followed by the reshape to a
  square matrix.
\<close>

definition hessian :: "real layer list \<Rightarrow> real tensor \<Rightarrow> nat list \<Rightarrow> py_error + real tensor" where
  "hessian layers inputs targets =
     ebind (T2_compute layers inputs targets (- 4)) (\<lambda>h.
       Inr (reshape h [shape h ! 0 * shape h ! 1, shape h ! 0 * shape h ! 1]))"


section \<open>Partial derivatives of a function of the variables\<close>

text \<open>
  What the claims mean by a derivative. \<open>shift \<theta> b k t\<close> moves entry \<open>k\<close> of variable
  \<open>b\<close> by \<open>t\<close>. \<open>has_partials [q\<^sub>n, ..., q\<^sub>1] F b \<theta> D\<close>: the iterated partial derivative of
  \<open>F\<close> with respect to the entries \<open>q\<^sub>1\<close>, then \<open>q\<^sub>2\<close>, ..., then \<open>q\<^sub>n\<close> of variable
  \<open>b\<close> exists at \<open>\<theta>\<close> and is \<open>D\<close>; the inner derivative must exist at every point
  near \<open>\<theta>\<close> on the line along which the outer one is taken.
\<close>

definition shift :: "(nat \<Rightarrow> nat \<Rightarrow> real) \<Rightarrow> nat \<Rightarrow> nat \<Rightarrow> real \<Rightarrow> nat \<Rightarrow> nat \<Rightarrow> real" where
  "shift \<theta> b k t = (\<lambda>b' k'. if b' = b \<and> k' = k then \<theta> b' k' + t else \<theta> b' k')"

primrec has_partials :: "nat list \<Rightarrow> ((nat \<Rightarrow> nat \<Rightarrow> real) \<Rightarrow> real) \<Rightarrow> nat \<Rightarrow> (nat \<Rightarrow> nat \<Rightarrow> real) \<Rightarrow> real \<Rightarrow> bool" where
  "has_partials [] F b \<theta> D = (F \<theta> = D)"
| "has_partials (q # ps) F b \<theta> D =
     (\<exists>G. eventually (\<lambda>t. has_partials ps F b (shift \<theta> b q t) (G t)) (nhds 0) \<and>
          (G has_real_derivative D) (at 0))"

text \<open>The model whose variables have the values \<open>\<theta>\<close>, everything else as recorded.\<close>

fun layer_map :: "('a \<Rightarrow> 'b) \<Rightarrow> 'a layer \<Rightarrow> 'b layer" where
  "layer_map g Flatten = Flatten"
| "layer_map g (Dense units a kern bias) = Dense units a (tmap g kern) (tmap g bias)"
| "layer_map g (CustomLayer xs dvs a kern) =
     CustomLayer (map (tmap g) xs) (tmap g dvs) a (tmap g kern)"

definition with_values :: "real layer list \<Rightarrow> (nat \<Rightarrow> nat \<Rightarrow> real) \<Rightarrow> real layer list" where
  "with_values layers \<theta> = map (layer_map (eval \<theta>)) (watch layers)"

text \<open>
  Where the recorded operations are differentiable in the entries of variable \<open>b\<close>: a
  rectifier away from its kink, a logarithm of a positive number, an inverse of a
  non-zero number; an operation whose argument does not involve variable \<open>b\<close> is
  constant in it.
\<close>

fun depends :: "expr \<Rightarrow> nat \<Rightarrow> bool" where
  "depends (Const c) b = False"
| "depends (Var b' k) b = (b' = b)"
| "depends (Add u v) b = (depends u b \<or> depends v b)"
| "depends (Sub u v) b = (depends u b \<or> depends v b)"
| "depends (Mul u v) b = (depends u b \<or> depends v b)"
| "depends (Inv u) b = depends u b"
| "depends (Relu u) b = depends u b"
| "depends (Step u) b = depends u b"
| "depends (Exp u) b = depends u b"
| "depends (Log u) b = depends u b"

fun smooth :: "nat \<Rightarrow> (nat \<Rightarrow> nat \<Rightarrow> real) \<Rightarrow> expr \<Rightarrow> bool" where
  "smooth b \<theta> (Const c) = True"
| "smooth b \<theta> (Var b' k) = True"
| "smooth b \<theta> (Add u v) = (smooth b \<theta> u \<and> smooth b \<theta> v)"
| "smooth b \<theta> (Sub u v) = (smooth b \<theta> u \<and> smooth b \<theta> v)"
| "smooth b \<theta> (Mul u v) = (smooth b \<theta> u \<and> smooth b \<theta> v)"
| "smooth b \<theta> (Inv u) = (smooth b \<theta> u \<and> (depends u b \<longrightarrow> eval \<theta> u \<noteq> 0))"
| "smooth b \<theta> (Relu u) = (smooth b \<theta> u \<and> (depends u b \<longrightarrow> eval \<theta> u \<noteq> 0))"
| "smooth b \<theta> (Step u) = (smooth b \<theta> u \<and> (depends u b \<longrightarrow> eval \<theta> u \<noteq> 0))"
| "smooth b \<theta> (Exp u) = smooth b \<theta> u"
| "smooth b \<theta> (Log u) = (smooth b \<theta> u \<and> (depends u b \<longrightarrow> 0 < eval \<theta> u))"

text \<open>Repeated differentiation with respect to entries of variable \<open>b\<close>, innermost last.\<close>

fun iterated_diff :: "nat \<Rightarrow> nat list \<Rightarrow> expr \<Rightarrow> expr" where
  "iterated_diff b [] u = u"
| "iterated_diff b (q # ps) u = diff (Var b q) (iterated_diff b ps u)"

section \<open>Properties of the direction selection\<close>

lemma upt_small: "[0..<1] = [0]" "[0..<2] = [0, 1]" "[0..<3] = [0, 1, 2]" "[0..<4] = [0, 1, 2, 3]"
  "[0..<8] = [0, 1, 2, 3, 4, 5, 6, 7]"
  "[0..<16] = [0, 1, 2, 3, 4, 5, 6, 7, 8, 9, 10, 11, 12, 13, 14, 15]"
  by (simp_all add: upt_conv_Cons)

lemma Max_mask_True: "True \<in> set bs \<Longrightarrow> Max (set bs) = True"
  by (rule Max_eqI) auto

lemma Max_mask_False: "bs \<noteq> [] \<Longrightarrow> True \<notin> set bs \<Longrightarrow> Max (set bs) = False"
  by (rule Max_eqI) (auto, metis (full_types) hd_in_set)

lemma argmax_mask_first:
  assumes "True \<in> set bs"
  shows "argmax bs = Inr (length (takeWhile Not bs))"
proof -
  have ne: "bs \<noteq> []" using assms by auto
  have "(\<lambda>x. x \<noteq> Max (set bs)) = Not"
    by (simp add: Max_mask_True [OF assms] fun_eq_iff)
  then show ?thesis using ne by (simp add: argmax_def)
qed

lemma argmax_mask_none:
  assumes "bs \<noteq> []" and "True \<notin> set bs"
  shows "argmax bs = Inr 0"
proof -
  obtain b bs' where bs: "bs = b # bs'" using assms(1) by (cases bs) auto
  have "b = False" using assms(2) bs by auto
  then show ?thesis using bs Max_mask_False [OF assms] by (simp add: argmax_def)
qed

lemma index_some_below:
  assumes "\<exists>x\<in>set w. x < threshold"
  shows "index w = Inr (length (takeWhile (\<lambda>x. \<not> x < threshold) w))"
proof -
  have "True \<in> set (map (\<lambda>x. x < threshold) w)" using assms by auto
  then have "index w = Inr (length (takeWhile Not (map (\<lambda>x. x < threshold) w)))"
    unfolding index_def by (rule argmax_mask_first)
  then show ?thesis by (simp add: takeWhile_map comp_def)
qed

lemma index_none_below:
  assumes "w \<noteq> []" and "\<forall>x\<in>set w. \<not> x < threshold"
  shows "index w = Inr 0"
  unfolding index_def using assms by (intro argmax_mask_none) auto

lemma index_props:
  assumes "w \<noteq> []"
  shows "\<exists>idx. index w = Inr idx \<and> idx < length w \<and> (\<forall>i<idx. threshold \<le> w ! i) \<and>
           (if \<exists>x\<in>set w. x < threshold then w ! idx < threshold else idx = 0)"
proof (cases "\<exists>x\<in>set w. x < threshold")
  case True
  let ?k = "length (takeWhile (\<lambda>x. \<not> x < threshold) w)"
  have "takeWhile (\<lambda>x. \<not> x < threshold) w \<noteq> w"
    using True by (auto simp: takeWhile_eq_all_conv)
  then have "?k \<noteq> length w" by (metis takeWhile_eq_take take_all_iff le_refl)
  then have lt: "?k < length w" using length_takeWhile_le [of _ w] by (simp add: le_neq_implies_less)
  have a: "w ! ?k < threshold" using nth_length_takeWhile [OF lt] by simp
  have b: "\<forall>i<?k. threshold \<le> w ! i"
    using nth_mem [of _ "takeWhile (\<lambda>x. \<not> x < threshold) w"] set_takeWhileD
    by (metis (mono_tags, lifting) not_less takeWhile_nth)
  show ?thesis using True lt a b index_some_below [OF True] by auto
next
  case False
  then show ?thesis using assms index_none_below [of w] by auto
qed

lemma get_col_ok: "shape v = [r, c] \<Longrightarrow> j < c \<Longrightarrow> get_col v (int j) = Inr (column v j)"
  by (simp add: get_col_def)

lemma get_col_last: "shape v = [r, c] \<Longrightarrow> 0 < c \<Longrightarrow> get_col v (- 1) = Inr (column v (c - 1))"
  by (simp add: get_col_def Let_def nat_diff_distrib' int_ops)

lemma get_col_out: "shape v = [r, c] \<Longrightarrow> c \<le> j \<Longrightarrow> get_col v (int j) = Inl IndexError"
  by (simp add: get_col_def)

lemma direction_vectors_cases:
  assumes "index w = Inr idx" and "shape v = [n, n]" and "0 < n" and "idx < n"
  shows "direction_vectors w v =
    (if idx + 1 < n then Inr (stack [column v (if idx = 0 then n - 1 else idx - 1), column v (idx + 1)])
     else Inl IndexError)"
proof (cases "idx = 0")
  case True
  then show ?thesis using assms get_col_last [of v n n] get_col_ok [of v n n 1] get_col_out [of v n n 1]
    by (auto simp: direction_vectors_def)
next
  case False
  then obtain k where k: "idx = Suc k" by (cases idx) auto
  have m: "int idx - 1 = int k" using k by simp
  have p: "int idx + 1 = int (idx + 1)" by simp
  show ?thesis
    using assms k get_col_ok [of v n n k] get_col_ok [of v n n "idx + 1"] get_col_out [of v n n "idx + 1"]
    unfolding direction_vectors_def m p by auto
qed

lemma tget_stack2:
  assumes "shape a = [n]" "length (vals a) = n" "shape b = [n]" "length (vals b) = n" "r < n"
  shows "tget (stack [a, b]) [0, r] = vals a ! r" "tget (stack [a, b]) [1, r] = vals b ! r"
  using assms by (simp_all add: tget_def nth_append)

lemma column_props:
  assumes "shape v = [n, n]"
  shows "shape (column v j) = [n]" "length (vals (column v j)) = n"
    "r < n \<Longrightarrow> vals (column v j) ! r = tget v [r, j]"
  using assms by (simp_all add: column_def tget_def)

text \<open>
  Claim C2, as the code has it. \<open>index\<close> is the position of the first eigenvalue
  strictly below the threshold \<open>1e-6\<close> (and 0 when there is none), so every eigenvalue
  before it is at least the threshold. When the selection succeeds, the first row of
  \<open>direction_vectors\<close> is the eigenvector (column of \<open>v\<close>) at \<open>index - 1\<close>, the last
  column when \<open>index = 0\<close>, and the second row is the eigenvector at \<open>index + 1\<close>.
\<close>

theorem direction_selection_rule:
  assumes "length w = n" and "shape v = [n, n]" and "direction_vectors w v = Inr dv"
  shows "\<exists>idx. index w = Inr idx \<and> idx + 1 < n \<and> (\<forall>i<idx. threshold \<le> w ! i) \<and>
           (if \<exists>x\<in>set w. x < threshold then w ! idx < threshold else idx = 0) \<and>
           shape dv = [2, n] \<and>
           (\<forall>r<n. tget dv [0, r] = tget v [r, if idx = 0 then n - 1 else idx - 1] \<and>
                  tget dv [1, r] = tget v [r, idx + 1])"
proof -
  have ne: "w \<noteq> []"
    using assms(3) by (auto simp: direction_vectors_def index_def argmax_def)
  then have n0: "0 < n" using assms(1) by auto
  obtain idx where idx: "index w = Inr idx" "idx < length w" "\<forall>i<idx. threshold \<le> w ! i"
      "if \<exists>x\<in>set w. x < threshold then w ! idx < threshold else idx = 0"
    using index_props [OF ne] by blast
  let ?c1 = "column v (if idx = 0 then n - 1 else idx - 1)" and ?c2 = "column v (idx + 1)"
  have dc: "direction_vectors w v = (if idx + 1 < n then Inr (stack [?c1, ?c2]) else Inl IndexError)"
    using direction_vectors_cases [OF idx(1) assms(2) n0] idx(2) assms(1) by simp
  then have lt: "idx + 1 < n" and dv: "dv = stack [?c1, ?c2]"
    using assms(3) by (auto split: if_splits)
  have sh: "shape dv = [2, n]" using dv column_props(1) [OF assms(2)] by simp
  have rows: "\<forall>r<n. tget dv [0, r] = tget v [r, if idx = 0 then n - 1 else idx - 1] \<and>
                  tget dv [1, r] = tget v [r, idx + 1]"
    unfolding dv
    using tget_stack2 [of ?c1 n ?c2] column_props [OF assms(2)] by simp
  show ?thesis using idx lt sh rows by blast
qed

text \<open>
  Claim C8, as the code has it. For a non-empty eigenvalue array and a square eigenvector
  matrix of the same size the selection returns its pair of directions, with no error,
  exactly when \<open>index + 1\<close> is still a column of \<open>v\<close>; otherwise the read of column
  \<open>index + 1\<close> raises IndexError.
\<close>

theorem direction_selection_failure:
  assumes "w \<noteq> []" and "shape v = [length w, length w]"
  shows "\<exists>idx. index w = Inr idx \<and> idx < length w \<and>
           (if idx + 1 < length w
            then \<exists>dv. direction_vectors w v = Inr dv \<and> shape dv = [2, length w]
            else direction_vectors w v = Inl IndexError)"
proof -
  obtain idx where idx: "index w = Inr idx" "idx < length w"
    using index_props [OF assms(1)] by blast
  have n0: "0 < length w" using assms(1) by simp
  show ?thesis
    using idx direction_vectors_cases [OF idx(1) assms(2) n0 idx(2)] column_props(1) [OF assms(2)]
    by auto
qed

lemma tget_vector: "shape a = [n] \<Longrightarrow> tget a [r] = vals a ! r"
  by (simp add: tget_def)

text \<open>
  Claim C10, as the code has it. For a non-empty \<open>w\<close>: with no eigenvalue below the
  threshold the mask is all false and \<open>index\<close> is 0; the read of column \<open>-1\<close> wraps to
  the last column of \<open>v\<close>, and when \<open>v\<close> has at least two columns the read of column 1
  succeeds and the selection returns the last column and column 1, entry by entry,
  without an error; with a single column the read of column 1 raises IndexError. When the
  first eigenvalue below the threshold is the last entry of \<open>w\<close>, the read of column
  \<open>index - 1\<close> succeeds, column \<open>index + 1\<close> is one past the last column of \<open>v\<close>
  and the read raises IndexError.
\<close>

theorem selection_edge_cases:
  assumes "length w = n" and "shape v = [n, n]" and "0 < n"
  shows "((\<forall>x\<in>set w. \<not> x < threshold) \<longrightarrow>
            index w = Inr 0 \<and>
            (\<exists>d1. get_col v (int 0 - 1) = Inr d1 \<and> shape d1 = [n] \<and>
                   (\<forall>r<n. tget d1 [r] = tget v [r, n - 1])) \<and>
            (if 2 \<le> n
             then (\<exists>d2. get_col v (int 0 + 1) = Inr d2 \<and> shape d2 = [n] \<and>
                         (\<forall>r<n. tget d2 [r] = tget v [r, 1])) \<and>
                  (\<exists>dv. direction_vectors w v = Inr dv \<and> shape dv = [2, n] \<and>
                         (\<forall>r<n. tget dv [0, r] = tget v [r, n - 1] \<and> tget dv [1, r] = tget v [r, 1]))
             else get_col v (int 0 + 1) = Inl IndexError \<and>
                  direction_vectors w v = Inl IndexError)) \<and>
         ((w ! (n - 1) < threshold \<and> (\<forall>i<n - 1. \<not> w ! i < threshold)) \<longrightarrow>
            index w = Inr (n - 1) \<and>
            (\<exists>d1. get_col v (int (n - 1) - 1) = Inr d1 \<and> shape d1 = [n] \<and>
                   (\<forall>r<n. tget d1 [r] = tget v [r, if n = 1 then 0 else n - 2])) \<and>
            get_col v (int (n - 1) + 1) = Inl IndexError \<and>
            direction_vectors w v = Inl IndexError)"
proof (intro conjI impI)
  have ne: "w \<noteq> []" using assms by auto
  note n0 = assms(3)
  have cp: "shape (column v j) = [n]" "\<forall>r<n. tget (column v j) [r] = tget v [r, j]" for j
    using column_props [OF assms(2)] by (simp_all add: tget_vector)
  {
    assume none: "\<forall>x\<in>set w. \<not> x < threshold"
    show i0: "index w = Inr 0" using index_none_below [OF ne none] .
    have g1: "get_col v (int 0 - 1) = Inr (column v (n - 1))"
      using get_col_last [OF assms(2) n0] by simp
    show "\<exists>d1. get_col v (int 0 - 1) = Inr d1 \<and> shape d1 = [n] \<and>
                   (\<forall>r<n. tget d1 [r] = tget v [r, n - 1])"
      using g1 cp by blast
    show "if 2 \<le> n
          then (\<exists>d2. get_col v (int 0 + 1) = Inr d2 \<and> shape d2 = [n] \<and>
                      (\<forall>r<n. tget d2 [r] = tget v [r, 1])) \<and>
               (\<exists>dv. direction_vectors w v = Inr dv \<and> shape dv = [2, n] \<and>
                      (\<forall>r<n. tget dv [0, r] = tget v [r, n - 1] \<and> tget dv [1, r] = tget v [r, 1]))
          else get_col v (int 0 + 1) = Inl IndexError \<and> direction_vectors w v = Inl IndexError"
    proof (cases "2 \<le> n")
      case True
      have g2: "get_col v (int 0 + 1) = Inr (column v 1)"
        using get_col_ok [OF assms(2), of 1] True by simp
      have dv: "direction_vectors w v = Inr (stack [column v (n - 1), column v 1])"
        using direction_vectors_cases [OF i0 assms(2) n0 n0] True by simp
      have rows: "\<forall>r<n. tget (stack [column v (n - 1), column v 1]) [0, r] = tget v [r, n - 1] \<and>
                         tget (stack [column v (n - 1), column v 1]) [1, r] = tget v [r, 1]"
        using tget_stack2 [of "column v (n - 1)" n "column v 1"] column_props [OF assms(2)] by simp
      have sh: "shape (stack [column v (n - 1), column v 1]) = [2, n]"
        using column_props(1) [OF assms(2)] by simp
      show ?thesis using True g2 cp dv rows sh by auto
    next
      case False
      have g2: "get_col v (int 0 + 1) = Inl IndexError"
        using get_col_out [OF assms(2), of 1] False by simp
      have dv: "direction_vectors w v = Inl IndexError"
        using direction_vectors_cases [OF i0 assms(2) n0 n0] False by simp
      show ?thesis using False g2 dv by simp
    qed
  }
  {
    assume last: "w ! (n - 1) < threshold \<and> (\<forall>i<n - 1. \<not> w ! i < threshold)"
    obtain idx where idx: "index w = Inr idx" "idx < length w" "\<forall>i<idx. threshold \<le> w ! i"
      "if \<exists>x\<in>set w. x < threshold then w ! idx < threshold else idx = 0"
      using index_props [OF ne] by blast
    have ex: "\<exists>x\<in>set w. x < threshold"
      using last assms(1) n0 by (metis diff_less nth_mem zero_less_one)
    then have b: "w ! idx < threshold" using idx(4) by simp
    have "\<not> idx < n - 1" using last b by blast
    moreover have "\<not> n - 1 < idx" using idx(3) last by (meson not_less)
    ultimately have e: "idx = n - 1" by simp
    show i1: "index w = Inr (n - 1)" using idx(1) e by simp
    have g1: "get_col v (int (n - 1) - 1) = Inr (column v (if n = 1 then 0 else n - 2))"
    proof (cases "n = 1")
      case True
      then show ?thesis using get_col_last [OF assms(2) n0] by simp
    next
      case False
      then have "int (n - 1) - 1 = int (n - 2)" using n0 by (simp add: int_ops)
      then show ?thesis using False get_col_ok [OF assms(2), of "n - 2"] n0 by simp
    qed
    show "\<exists>d1. get_col v (int (n - 1) - 1) = Inr d1 \<and> shape d1 = [n] \<and>
                   (\<forall>r<n. tget d1 [r] = tget v [r, if n = 1 then 0 else n - 2])"
      using g1 cp by blast
    show "get_col v (int (n - 1) + 1) = Inl IndexError"
      using get_col_out [OF assms(2), of n] n0 by (simp add: int_ops)
    show "direction_vectors w v = Inl IndexError"
      using direction_vectors_cases [OF i1 assms(2) n0] n0 by simp
  }
qed

theorem direction_selection_rule_witness:
  "length [1, 0, 0 :: real] = 3 \<and>
   shape \<lparr>shape = [3, 3], vals = [1, 2, 3, 4, 5, 6, 7, 8, 9 :: real]\<rparr> = [3, 3] \<and>
   direction_vectors [1, 0, 0] \<lparr>shape = [3, 3], vals = [1, 2, 3, 4, 5, 6, 7, 8, 9]\<rparr>
     = Inr \<lparr>shape = [2, 3], vals = [1, 4, 7, 3, 6, 9]\<rparr> \<and>
   (\<exists>idx. index [1, 0, 0] = Inr idx \<and> idx + 1 < 3 \<and> (\<forall>i<idx. threshold \<le> [1, 0, 0] ! i) \<and>
      (if \<exists>x\<in>set [1, 0, 0 :: real]. x < threshold then [1, 0, 0] ! idx < threshold else idx = 0) \<and>
      shape \<lparr>shape = [2, 3], vals = [1, 4, 7, 3, 6, 9 :: real]\<rparr> = [2, 3] \<and>
      (\<forall>r<3. tget \<lparr>shape = [2, 3], vals = [1, 4, 7, 3, 6, 9 :: real]\<rparr> [0, r]
                = tget \<lparr>shape = [3, 3], vals = [1, 2, 3, 4, 5, 6, 7, 8, 9]\<rparr> [r, if idx = 0 then 3 - 1 else idx - 1] \<and>
             tget \<lparr>shape = [2, 3], vals = [1, 4, 7, 3, 6, 9 :: real]\<rparr> [1, r]
                = tget \<lparr>shape = [3, 3], vals = [1, 2, 3, 4, 5, 6, 7, 8, 9]\<rparr> [r, idx + 1]))"
proof -
  have i: "index [1, 0, 0] = Inr 1"
    by (simp add: index_def argmax_def threshold_def)
  have d: "direction_vectors [1, 0, 0] \<lparr>shape = [3, 3], vals = [1, 2, 3, 4, 5, 6, 7, 8, 9]\<rparr>
     = Inr \<lparr>shape = [2, 3], vals = [1, 4, 7, 3, 6, 9]\<rparr>"
    by (simp add: direction_vectors_def i get_col_def column_def upt_small)
  show ?thesis
    using direction_selection_rule [of "[1, 0, 0]" 3 "\<lparr>shape = [3, 3], vals = [1, 2, 3, 4, 5, 6, 7, 8, 9]\<rparr>", OF _ _ d] d
    by simp
qed

text \<open>
  Claim C2 as the specification words it fails: on an array of 128 ones followed by 128
  zeros the code's \<open>index\<close> is 128, the first eigenvalue exceeding the threshold is at 0,
  and the eigenvalue at \<open>index - 1\<close> is not below the threshold.
\<close>

theorem first_exceeding_counterexample:
  "index (replicate 128 1 @ replicate 128 0)
     \<noteq> Inr (spec_first_exceeding (replicate 128 1 @ replicate 128 0)) \<and>
   index (replicate 128 1 @ replicate 128 0) = Inr 128 \<and>
   spec_first_exceeding (replicate 128 1 @ replicate 128 0) = 0 \<and>
   \<not> (replicate 128 1 @ replicate 128 0) ! (128 - 1) < threshold"
proof -
  have a: "index (replicate 128 1 @ replicate 128 0) = Inr 128"
    by (subst index_some_below) (simp_all add: threshold_def takeWhile_append takeWhile_replicate)
  have b: "spec_first_exceeding (replicate 128 1 @ replicate 128 0) = 0"
    by (simp add: spec_first_exceeding_def threshold_def takeWhile_append takeWhile_replicate)
  have c: "\<not> (replicate 128 1 @ replicate 128 0) ! (128 - 1) < threshold"
    by (simp add: nth_append threshold_def)
  show ?thesis unfolding a b using c by simp
qed

text \<open>
  Claim C8 as stated fails: when the only eigenvalue below the threshold is the last of
  256, the selection raises IndexError.
\<close>

theorem selection_failure_counterexample:
  "direction_vectors (replicate 255 1 @ [0]) (zeros [256, 256]) = Inl IndexError"
proof -
  have i: "index (replicate 255 1 @ [0]) = Inr 255"
    by (subst index_some_below) (simp_all add: threshold_def takeWhile_append takeWhile_replicate)
  show ?thesis
    by (simp add: direction_vectors_def i get_col_def zeros_def)
qed

theorem direction_selection_failure_witness:
  "[1, 0, 0 :: real] \<noteq> [] \<and>
   (\<exists>idx. index [1, 0, 0] = Inr idx \<and> idx < length [1, 0, 0 :: real] \<and>
           (if idx + 1 < length [1, 0, 0 :: real]
            then \<exists>dv. direction_vectors [1, 0, 0] (zeros [3, 3]) = Inr dv \<and> shape dv = [2, length [1, 0, 0 :: real]]
            else direction_vectors [1, 0, 0] (zeros [3, 3]) = Inl IndexError)) \<and>
   [1, 1, 0 :: real] \<noteq> [] \<and>
   (\<exists>idx. index [1, 1, 0] = Inr idx \<and> idx < length [1, 1, 0 :: real] \<and>
           (if idx + 1 < length [1, 1, 0 :: real]
            then \<exists>dv. direction_vectors [1, 1, 0] (zeros [3, 3]) = Inr dv \<and> shape dv = [2, length [1, 1, 0 :: real]]
            else direction_vectors [1, 1, 0] (zeros [3, 3]) = Inl IndexError))"
  using direction_selection_failure [of "[1, 0, 0]" "zeros [3, 3]"]
        direction_selection_failure [of "[1, 1, 0]" "zeros [3, 3]"]
  by (simp add: zeros_def)

theorem selection_edge_cases_witness:
  "length [1, 1, 1 :: real] = 3 \<and>
   shape \<lparr>shape = [3, 3], vals = [1, 2, 3, 4, 5, 6, 7, 8, 9 :: real]\<rparr> = [3, 3] \<and> (0::nat) < 3 \<and>
   \<not> (1::real) < threshold \<and>
   index [1, 1, 1] = Inr 0 \<and>
   get_col \<lparr>shape = [3, 3], vals = [1, 2, 3, 4, 5, 6, 7, 8, 9 :: real]\<rparr> (- 1)
     = Inr \<lparr>shape = [3], vals = [3, 6, 9]\<rparr> \<and>
   get_col \<lparr>shape = [3, 3], vals = [1, 2, 3, 4, 5, 6, 7, 8, 9 :: real]\<rparr> 1
     = Inr \<lparr>shape = [3], vals = [2, 5, 8]\<rparr> \<and>
   direction_vectors [1, 1, 1] \<lparr>shape = [3, 3], vals = [1, 2, 3, 4, 5, 6, 7, 8, 9]\<rparr>
     = Inr \<lparr>shape = [2, 3], vals = [3, 6, 9, 2, 5, 8]\<rparr> \<and>
   (\<exists>dv. direction_vectors [1, 1, 1] \<lparr>shape = [3, 3], vals = [1, 2, 3, 4, 5, 6, 7, 8, 9]\<rparr> = Inr dv \<and>
         shape dv = [2, 3] \<and>
         (\<forall>r<3. tget dv [0, r] = tget \<lparr>shape = [3, 3], vals = [1, 2, 3, 4, 5, 6, 7, 8, 9]\<rparr> [r, 3 - 1] \<and>
                tget dv [1, r] = tget \<lparr>shape = [3, 3], vals = [1, 2, 3, 4, 5, 6, 7, 8, 9]\<rparr> [r, 1])) \<and>
   length [1, 1, 0 :: real] = 3 \<and> [1, 1, 0 :: real] ! (3 - 1) < threshold \<and>
   index [1, 1, 0] = Inr (3 - 1) \<and>
   get_col \<lparr>shape = [3, 3], vals = [1, 2, 3, 4, 5, 6, 7, 8, 9 :: real]\<rparr> (int (3 - 1) + 1) = Inl IndexError \<and>
   direction_vectors [1, 1, 0] \<lparr>shape = [3, 3], vals = [1, 2, 3, 4, 5, 6, 7, 8, 9]\<rparr> = Inl IndexError"
proof -
  let ?v = "\<lparr>shape = [3, 3], vals = [1, 2, 3, 4, 5, 6, 7, 8, 9 :: real]\<rparr>"
  have t: "\<not> (1::real) < threshold" "(0::real) < threshold" by (simp_all add: threshold_def)
  have l: "\<forall>i<3 - 1. \<not> [1, 1, 0 :: real] ! i < threshold"
    using t by (simp add: less_Suc_eq numeral_2_eq_2 numeral_3_eq_3)
  have c: "get_col ?v (- 1) = Inr \<lparr>shape = [3], vals = [3, 6, 9]\<rparr>"
    "get_col ?v 1 = Inr \<lparr>shape = [3], vals = [2, 5, 8]\<rparr>"
    by (simp_all add: get_col_def column_def upt_small)
  have i: "index [1, 1, 1] = Inr 0"
    using t by (simp add: index_def argmax_def)
  have d: "direction_vectors [1, 1, 1] ?v = Inr \<lparr>shape = [2, 3], vals = [3, 6, 9, 2, 5, 8]\<rparr>"
    by (simp add: direction_vectors_def i c)
  show ?thesis
    using selection_edge_cases [of "[1, 1, 1]" 3 ?v]
          selection_edge_cases [of "[1, 1, 0]" 3 ?v] t l c d
    by simp
qed

text \<open>
  Claim C10 as stated fails for a matrix with a single column: no eigenvalue is below the
  threshold, \<open>index\<close> is 0, the read of column \<open>-1\<close> succeeds, and the read of column 1
  raises IndexError.
\<close>

theorem single_column_counterexample:
  "\<not> (1::real) < threshold \<and> set [1 :: real] = {1} \<and>
   index [1] = Inr 0 \<and>
   get_col \<lparr>shape = [1, 1], vals = [1 :: real]\<rparr> (int 0 - 1) = Inr \<lparr>shape = [1], vals = [1]\<rparr> \<and>
   get_col \<lparr>shape = [1, 1], vals = [1 :: real]\<rparr> (int 0 + 1) = Inl IndexError \<and>
   direction_vectors [1] \<lparr>shape = [1, 1], vals = [1]\<rparr> = Inl IndexError"
proof -
  have t: "\<not> (1::real) < threshold" by (simp add: threshold_def)
  have i: "index [1] = Inr 0" using t by (simp add: index_def argmax_def)
  show ?thesis using t by (simp add: direction_vectors_def i get_col_def column_def upt_small)
qed

section \<open>Properties of the layers and of the second model\<close>

lemma length_grid: "length (concat (map (\<lambda>i. map (g i) [0..<r]) [0..<p])) = p * r"
  by (induction p) simp_all

lemma nth_grid:
  "i < p \<Longrightarrow> j < r \<Longrightarrow> concat (map (\<lambda>i. map (g i) [0..<r]) [0..<p]) ! (i * r + j) = g i j"
proof (induction p)
  case 0
  then show ?case by simp
next
  case (Suc p)
  show ?case
  proof (cases "i < p")
    case True
    then have "i * r + j < p * r"
      using Suc.prems(2) by (metis add.commute mult_Suc add_less_cancel_left less_le_trans mult_le_mono1 Suc_leI)
    then show ?thesis using Suc True by (simp add: nth_append length_grid)
  next
    case False
    then have "i = p" using Suc.prems by simp
    then show ?thesis using Suc.prems by (simp add: nth_append length_grid)
  qed
qed

lemma lsum_sum_list: "lsum xs = sum_list (xs :: 'a::monoid_add list)"
  by (simp add: lsum_def sum_list.eq_foldr)

lemma lsum_upt: "lsum (map g [0..<q]) = (\<Sum>k<q. (g k :: 'a::comm_monoid_add))"
  by (simp add: lsum_sum_list interv_sum_list_conv_sum_set_nat atLeast0LessThan)

lemma matmul_shape: "shape (matmul a b) = [shape a ! 0, shape b ! 1]"
  by (simp add: matmul_def Let_def)

lemma matmul_length: "length (vals (matmul a b)) = shape a ! 0 * shape b ! 1"
  by (simp add: matmul_def Let_def length_grid)

lemma matmul_nth:
  assumes "shape a = [p, q]" and "shape b = [q, r]" and "i < p" and "j < r"
  shows "vals (matmul a b) ! (i * r + j)
         = lsum (map (\<lambda>k. vals a ! (i * q + k) * vals b ! (k * r + j)) [0..<q])"
  using assms by (simp add: matmul_def Let_def nth_grid)

lemma tadd_shape: "shape (tadd a b) = shape a"
  by (simp add: tadd_def)

lemma tadd_length: "length (vals (tadd a b)) = length (vals a)"
  by (simp add: tadd_def)

lemma tadd_nth:
  "k < length (vals a) \<Longrightarrow> vals (tadd a b) ! k = vals a ! k + vals b ! (k mod length (vals b))"
  by (simp add: tadd_def)

lemma tensordot_kernel:
  assumes "shape t = [2]" and "shape dvs = [2, m, n]"
  shows "tensordot t dvs [0] [0] =
         \<lparr>shape = [m, n],
          vals = map (\<lambda>j. lsum [vals t ! 0 * vals dvs ! j, vals t ! 1 * vals dvs ! (m * n + j)]) [0..<m * n]\<rparr>"
proof -
  have f1: "filter (\<lambda>i. i \<notin> set [0::nat]) [0..<length [2::nat]] = []" by simp
  have f3: "filter (\<lambda>i. i \<notin> set [0::nat]) [0..<length [2, m, n]] = [1, 2]"
    by (simp add: upt_conv_Cons)
  have u3: "[0..<length [2, m, n]] = [0, 1, 2]" by (simp add: upt_conv_Cons)
  show ?thesis
    unfolding tensordot_def tensordot_reshape_def assms Let_def f1 f3 u3
    by (simp add: reshape_def matmul_def Let_def upt_small)
qed


lemma ravel2: "ravel [p, q] [i, j] = i * q + j" by simp

lemma ravel3: "ravel [p, q, r] [i, j, k] = i * (q * r) + (j * r + k)" by simp

lemma grid_index_less: "i < p \<Longrightarrow> j < (r::nat) \<Longrightarrow> i * r + j < p * r"
proof -
  assume a: "i < p" "j < r"
  have "i * r + j < i * r + r" using a by simp
  also have "\<dots> = Suc i * r" by simp
  also have "\<dots> \<le> p * r" using a by (intro mult_le_mono1) simp
  finally show ?thesis .
qed

lemma call_custom_shape:
  assumes "shape W = [m, n]" and "shape x = [N, m]"
  shows "shape (call bk (CustomLayer [W, b] dvs None t) x) = [N, n]"
  using assms by (simp add: Let_def tadd_shape matmul_shape)

lemma call_custom_nth:
  assumes "shape W = [m, n]" and "length (vals W) = m * n" and "shape b = [n]"
    and "length (vals b) = n" and "shape dvs = [2, m, n]" and "shape t = [2]"
    and "shape x = [N, m]" and "s < N" and "j < n"
  shows "vals (call numeric (CustomLayer [W, b] dvs None t) x) ! (s * n + j)
         = (\<Sum>i<m. vals x ! (s * m + i) *
              (vals W ! (i * n + j) + (vals t ! 0 * vals dvs ! (i * n + j)
                 + vals t ! 1 * vals dvs ! (m * n + (i * n + j))))) + vals b ! j"
proof -
  let ?td = "tensordot t dvs [0] [0]"
  let ?Wt = "tadd W ?td"
  have td: "?td = \<lparr>shape = [m, n],
      vals = map (\<lambda>j. lsum [vals t ! 0 * vals dvs ! j, vals t ! 1 * vals dvs ! (m * n + j)]) [0..<m * n]\<rparr>"
    using tensordot_kernel [OF assms(6,5)] .
  have Wt_shape: "shape ?Wt = [m, n]" using assms(1) by (simp add: tadd_shape)
  have Wt_nth: "vals ?Wt ! (i * n + j) = vals W ! (i * n + j) + (vals t ! 0 * vals dvs ! (i * n + j)
                 + vals t ! 1 * vals dvs ! (m * n + (i * n + j)))" if "i < m" for i
  proof -
    have lt: "i * n + j < m * n" using that assms(9) by (rule grid_index_less)
    show ?thesis using lt assms(2) by (simp add: tadd_nth td lsum_def)
  qed
  have sn: "s * n + j < N * n" using assms(8,9) by (rule grid_index_less)
  have len: "length (vals (matmul x ?Wt)) = N * n"
    using assms(7) Wt_shape by (simp add: matmul_length)
  have "vals (call numeric (CustomLayer [W, b] dvs None t) x) ! (s * n + j)
        = vals (matmul x ?Wt) ! (s * n + j) + vals b ! ((s * n + j) mod n)"
    using sn len assms(4) by (simp add: Let_def tadd_nth)
  also have "vals (matmul x ?Wt) ! (s * n + j)
        = (\<Sum>i<m. vals x ! (s * m + i) * vals ?Wt ! (i * n + j))"
    using matmul_nth [OF assms(7) Wt_shape assms(8,9)] by (simp add: lsum_upt)
  also have "\<dots> = (\<Sum>i<m. vals x ! (s * m + i) *
              (vals W ! (i * n + j) + (vals t ! 0 * vals dvs ! (i * n + j)
                 + vals t ! 1 * vals dvs ! (m * n + (i * n + j)))))"
    by (rule sum.cong) (simp_all add: Wt_nth)
  also have "(s * n + j) mod n = j" using assms(9) by simp
  finally show ?thesis .
qed

lemma call_dense_shape:
  assumes "shape W = [m, n]" and "shape x = [N, m]"
  shows "shape (call bk (Dense u a W b) x) = [N, n]"
  using assms by (cases a) (simp_all add: Let_def tadd_shape matmul_shape tmap_def)

lemma call_dense_nth:
  assumes "shape W = [m, n]" and "shape b = [n]" and "length (vals b) = n"
    and "shape x = [N, m]" and "s < N" and "j < n"
  shows "vals (call numeric (Dense u a W b) x) ! (s * n + j)
         = (case a of None \<Rightarrow> (\<lambda>z. z) | Some g \<Rightarrow> activation_fn numeric g)
             ((\<Sum>i<m. vals x ! (s * m + i) * vals W ! (i * n + j)) + vals b ! j)"
proof -
  have sn: "s * n + j < N * n" using assms(5,6) by (rule grid_index_less)
  have len: "length (vals (matmul x W)) = N * n"
    using assms(1,4) by (simp add: matmul_length)
  have m: "(s * n + j) mod n = j" using assms(6) by simp
  have "vals (tadd (matmul x W) b) ! (s * n + j)
        = (\<Sum>i<m. vals x ! (s * m + i) * vals W ! (i * n + j)) + vals b ! j"
    using sn len assms(3) matmul_nth [OF assms(4,1,5,6)] m by (simp add: tadd_nth lsum_upt)
  then show ?thesis using sn len by (cases a) (simp_all add: Let_def tmap_def tadd_length)
qed

lemma model_c_value:
  assumes "shape k1' = shape k1" and "shape b1' = shape b1"
    and "shape k3' = shape k3" and "shape b3' = shape b3"
  shows "model_c (x_star (model k1 b1 k2 b2 k3 b3)) dv k1' b1' t' k3' b3'
         = Inr [Flatten, Dense 16 (Some ReLU) k1 b1,
                CustomLayer [k2, b2] (reshape dv [shape dv ! 0, shape k2 ! 0, shape k2 ! 1]) None
                  (zeros [shape dv ! 0]),
                Dense 10 None k3 b3]"
  using assms
  by (simp add: model_c_def model_c_built_def x_star_def model_def py_get_def ebind_def
      nb_layer_def upt_small CustomLayer_init_def zeros_def nb_directions_def)


text \<open>
  Claim C7. When the freshly built weights of the second model have the shapes of the
  trained ones (both models were built on the same images) and there are two direction
  vectors, the cell that builds \<open>model_c\<close> succeeds; every layer other than the custom
  layer (index \<open>nb_layer = 2\<close>) then holds the weights of \<open>x_star\<close> at the same index,
  the custom layer keeps \<open>x_star[2]\<close> as constants and its only weight is the 2-entry
  vector, set to zero.
\<close>

theorem model_c_frame:
  assumes "shape k1' = shape k1" and "shape b1' = shape b1"
    and "shape k3' = shape k3" and "shape b3' = shape b3" and "shape dv ! 0 = 2"
  shows "\<exists>mc. model_c (x_star (model k1 b1 k2 b2 k3 b3)) dv k1' b1' t' k3' b3' = Inr mc \<and>
           length mc = 4 \<and>
           (\<forall>k<4. k \<noteq> nb_layer \<longrightarrow> weights (mc ! k) = x_star (model k1 b1 k2 b2 k3 b3) ! k) \<and>
           weights (mc ! nb_layer) = [\<lparr>shape = [2], vals = [0, 0 :: real]\<rparr>] \<and>
           (\<exists>dvs. mc ! nb_layer = CustomLayer (x_star (model k1 b1 k2 b2 k3 b3) ! nb_layer) dvs None
                      \<lparr>shape = [2], vals = [0, 0]\<rparr>) \<and>
           trainable_variables mc = [k1, b1, \<lparr>shape = [2], vals = [0, 0]\<rparr>, k3, b3]"
proof -
  have z: "(zeros [shape dv ! 0] :: real tensor) = \<lparr>shape = [2], vals = [0, 0]\<rparr>"
    using assms(5) by (simp add: zeros_def numeral_2_eq_2)
  have k4: "k < 4 \<longleftrightarrow> k = 0 \<or> k = 1 \<or> k = 2 \<or> k = (3::nat)" for k by auto
  show ?thesis
    unfolding model_c_value [OF assms(1-4)] z
    by (simp add: k4 nb_layer_def x_star_def model_def trainable_variables_def)
qed

theorem model_c_frame_witness:
  "\<exists>mc. model_c (x_star (model (zeros [784, 16]) (zeros [16]) (zeros [16, 16]) (zeros [16])
                        (zeros [16, 10]) (zeros [10])))
           (zeros [2, 256]) \<lparr>shape = [784, 16], vals = replicate 12544 1\<rparr>
           \<lparr>shape = [16], vals = replicate 16 1\<rparr> [1, 1]
           \<lparr>shape = [16, 10], vals = replicate 160 1\<rparr> \<lparr>shape = [10], vals = replicate 10 1\<rparr>
         = Inr mc \<and>
         weights (mc ! nb_layer) = [\<lparr>shape = [2], vals = [0, 0 :: real]\<rparr>] \<and>
         trainable_variables mc = [zeros [784, 16], zeros [16], \<lparr>shape = [2], vals = [0, 0]\<rparr>,
                                   zeros [16, 10], zeros [10]]"
  using model_c_frame [of "\<lparr>shape = [784, 16], vals = replicate 12544 1\<rparr>" "zeros [784, 16]"
      "\<lparr>shape = [16], vals = replicate 16 1\<rparr>" "zeros [16]"
      "\<lparr>shape = [16, 10], vals = replicate 160 1\<rparr>" "zeros [16, 10]"
      "\<lparr>shape = [10], vals = replicate 10 1\<rparr>" "zeros [10]" "zeros [2, 256]" "zeros [16, 16]" "zeros [16]" "[1, 1]"]
  by (simp add: zeros_def) blast


text \<open>
  Claim C9. In \<open>model_c\<close> the custom layer has \<open>activation = None\<close>; whatever values
  \<open>t1\<close>, \<open>t2\<close> its weight is given, entry \<open>[s, j]\<close> of its output on a batch
  \<open>x\<close> is the affine expression \<open>sum_i x[s,i] * (W*[i,j] + t1 * d1[i,j] + t2 * d2[i,j]) + b*[j]\<close>,
  with \<open>d1\<close>, \<open>d2\<close> the two direction vectors reshaped to the shape of \<open>W*\<close>. The layer
  of the trained model at the same position applies \<open>relu\<close> to that expression (without
  the direction terms).
\<close>

theorem custom_layer_affine:
  assumes "trained d k1 b1 k2 b2 k3 b3"
    and "shape k1' = shape k1" and "shape b1' = shape b1"
    and "shape k3' = shape k3" and "shape b3' = shape b3"
    and "shape dv = [2, 256]" and "shape x = [N, 16]" and "s < N" and "j < 16"
  shows "\<exists>mc xs dvs kern cl.
           model_c (x_star (model k1 b1 k2 b2 k3 b3)) dv k1' b1' t' k3' b3' = Inr mc \<and>
           mc ! nb_layer = CustomLayer xs dvs None kern \<and>
           dvs = reshape dv [2, 16, 16] \<and>
           set_weights (mc ! nb_layer) [\<lparr>shape = [2], vals = [t1, t2]\<rparr>] = Inr cl \<and>
           tget (call numeric cl x) [s, j]
             = (\<Sum>i<16. tget x [s, i] *
                  (tget k2 [i, j] + (t1 * tget dvs [0, i, j] + t2 * tget dvs [1, i, j])))
               + tget b2 [j] \<and>
           model k1 b1 k2 b2 k3 b3 ! nb_layer = Dense 16 (Some ReLU) k2 b2 \<and>
           tget (call numeric (model k1 b1 k2 b2 k3 b3 ! nb_layer) x) [s, j]
             = relu ((\<Sum>i<16. tget x [s, i] * tget k2 [i, j]) + tget b2 [j])"
proof -
  let ?dvs = "reshape dv [2, 16, 16]"
  let ?t = "\<lparr>shape = [2], vals = [t1, t2]\<rparr>"
  let ?cl = "CustomLayer [k2, b2] ?dvs None ?t"
  have sh: "shape k2 = [16, 16]" "shape b2 = [16]" "length (vals k2) = 16 * 16" "length (vals b2) = 16"
    using assms(1) by (simp_all add: trained_def wf_tensor_def)
  have mc: "model_c (x_star (model k1 b1 k2 b2 k3 b3)) dv k1' b1' t' k3' b3'
         = Inr [Flatten, Dense 16 (Some ReLU) k1 b1,
                CustomLayer [k2, b2] ?dvs None (zeros [2]), Dense 10 None k3 b3]"
    using model_c_value [OF assms(2-5), of k2 b2 dv t'] assms(6) sh by simp
  have dsh: "shape ?dvs = [2, 16, 16]" by (simp add: reshape_def)
  have c: "tget (call numeric ?cl x) [s, j]
             = (\<Sum>i<16. tget x [s, i] *
                  (tget k2 [i, j] + (t1 * tget ?dvs [0, i, j] + t2 * tget ?dvs [1, i, j])))
               + tget b2 [j]"
    using call_custom_nth [OF sh(1,3,2,4) dsh _ assms(7,8,9), of ?t]
      call_custom_shape [OF sh(1) assms(7), of numeric b2 ?dvs ?t]
    by (simp add: tget_def sh assms(7) dsh del: call.simps)
  have d: "tget (call numeric (Dense 16 (Some ReLU) k2 b2) x) [s, j]
             = relu ((\<Sum>i<16. tget x [s, i] * tget k2 [i, j]) + tget b2 [j])"
    using call_dense_nth [OF sh(1,2,4) assms(7,8,9), of 16 "Some ReLU"]
      call_dense_shape [OF sh(1) assms(7), of numeric 16 "Some ReLU" b2]
    by (simp add: tget_def sh assms(7) numeric_def del: call.simps)
  show ?thesis
    unfolding mc using c d
    by (simp add: nb_layer_def zeros_def model_def del: call.simps)
qed


theorem custom_layer_affine_witness:
  "trained 784 (zeros [784, 16] :: real tensor) (zeros [16]) (zeros [16, 16]) (zeros [16]) (zeros [16, 10]) (zeros [10]) \<and>
   shape (zeros [2, 256] :: real tensor) = [2, 256] \<and> shape (zeros [1, 16] :: real tensor) = [1, 16] \<and>
   (\<exists>mc xs dvs kern cl.
           model_c (x_star (model (zeros [784, 16]) (zeros [16]) (zeros [16, 16]) (zeros [16]) (zeros [16, 10]) (zeros [10])))
              (zeros [2, 256]) (zeros [784, 16]) (zeros [16]) [1, 1] (zeros [16, 10]) (zeros [10]) = Inr mc \<and>
           mc ! nb_layer = CustomLayer xs dvs None kern \<and>
           dvs = reshape (zeros [2, 256]) [2, 16, 16] \<and>
           set_weights (mc ! nb_layer) [\<lparr>shape = [2], vals = [1, 2]\<rparr>] = Inr cl \<and>
           tget (call numeric cl (zeros [1, 16])) [0, 0]
             = (\<Sum>i<16. tget (zeros [1, 16]) [0, i] *
                  (tget (zeros [16, 16]) [i, 0] + (1 * tget dvs [0, i, 0] + 2 * tget dvs [1, i, 0])))
               + tget (zeros [16]) [0])"
proof -
  have t: "trained 784 (zeros [784, 16] :: real tensor) (zeros [16]) (zeros [16, 16]) (zeros [16]) (zeros [16, 10]) (zeros [10])"
    by (simp add: trained_def zeros_def wf_tensor_def)
  have d: "shape (zeros [2, 256] :: real tensor) = [2, 256]" and x: "shape (zeros [1, 16] :: real tensor) = [1, 16]"
    by (simp_all add: zeros_def)
  show ?thesis
    using custom_layer_affine [OF t refl refl refl refl d x, of 0 0 "[1, 1]" 1 2] t d x
    by (simp del: call.simps) blast
qed

section \<open>The second model against the trained one\<close>

lemma call_dense_length:
  assumes "shape W = [m, n]" and "shape x = [N, m]"
  shows "length (vals (call bk (Dense u a W b) x)) = N * n"
  using assms by (cases a) (simp_all add: Let_def tadd_length matmul_length tmap_def)

lemma call_custom_length:
  assumes "shape W = [m, n]" and "shape x = [N, m]"
  shows "length (vals (call bk (CustomLayer [W, b] dvs None t) x)) = N * n"
  using assms by (simp add: Let_def tadd_length tadd_shape matmul_length)

lemma dense_zero_input:
  assumes "shape W = [m, n]" and "shape b = [n]" and "length (vals b) = n"
    and "shape x = [1, m]" and "\<And>i. i < m \<Longrightarrow> vals x ! i = 0"
  shows "call numeric (Dense u a W b) x
         = \<lparr>shape = [1, n],
            vals = map (case a of None \<Rightarrow> (\<lambda>z. z) | Some g \<Rightarrow> activation_fn numeric g) (vals b)\<rparr>"
proof (rule tensor.equality)
  show "shape (call numeric (Dense u a W b) x) = shape \<lparr>shape = [1, n],
            vals = map (case a of None \<Rightarrow> (\<lambda>z. z) | Some g \<Rightarrow> activation_fn numeric g) (vals b)\<rparr>"
    using call_dense_shape [OF assms(1,4)] by simp
  show "vals (call numeric (Dense u a W b) x) = vals \<lparr>shape = [1, n],
            vals = map (case a of None \<Rightarrow> (\<lambda>z. z) | Some g \<Rightarrow> activation_fn numeric g) (vals b)\<rparr>"
  proof (rule nth_equalityI)
    show "length (vals (call numeric (Dense u a W b) x)) = length (vals \<lparr>shape = [1, n],
            vals = map (case a of None \<Rightarrow> (\<lambda>z. z) | Some g \<Rightarrow> activation_fn numeric g) (vals b)\<rparr>)"
      using call_dense_length [OF assms(1,4)] assms(3) by simp
  next
    fix j assume "j < length (vals (call numeric (Dense u a W b) x))"
    then have j: "j < n" using call_dense_length [OF assms(1,4)] by simp
    have "(\<Sum>i<m. vals x ! (0 * m + i) * vals W ! (i * n + j)) = 0"
      by (rule sum.neutral) (simp add: assms(5))
    then show "vals (call numeric (Dense u a W b) x) ! j = vals \<lparr>shape = [1, n],
            vals = map (case a of None \<Rightarrow> (\<lambda>z. z) | Some g \<Rightarrow> activation_fn numeric g) (vals b)\<rparr> ! j"
      using call_dense_nth [OF assms(1,2,3,4) _ j, of 0 u a] j assms(3) by (simp del: call.simps)
  qed
qed simp

lemma custom_zero_input:
  assumes "shape W = [m, n]" and "length (vals W) = m * n" and "shape b = [n]"
    and "length (vals b) = n" and "shape dvs = [2, m, n]" and "shape t = [2]"
    and "shape x = [1, m]" and "\<And>i. i < m \<Longrightarrow> vals x ! i = 0"
  shows "call numeric (CustomLayer [W, b] dvs None t) x = \<lparr>shape = [1, n], vals = vals b\<rparr>"
proof (rule tensor.equality)
  show "shape (call numeric (CustomLayer [W, b] dvs None t) x) = shape \<lparr>shape = [1, n], vals = vals b\<rparr>"
    using call_custom_shape [OF assms(1,7)] by simp
  show "vals (call numeric (CustomLayer [W, b] dvs None t) x) = vals \<lparr>shape = [1, n], vals = vals b\<rparr>"
  proof (rule nth_equalityI)
    show "length (vals (call numeric (CustomLayer [W, b] dvs None t) x)) = length (vals \<lparr>shape = [1, n], vals = vals b\<rparr>)"
      using call_custom_length [OF assms(1,7)] assms(4) by simp
  next
    fix j assume "j < length (vals (call numeric (CustomLayer [W, b] dvs None t) x))"
    then have j: "j < n" using call_custom_length [OF assms(1,7)] by simp
    have "(\<Sum>i<m. vals x ! (0 * m + i) *
              (vals W ! (i * n + j) + (vals t ! 0 * vals dvs ! (i * n + j)
                 + vals t ! 1 * vals dvs ! (m * n + (i * n + j))))) = 0"
      by (rule sum.neutral) (simp add: assms(8))
    then show "vals (call numeric (CustomLayer [W, b] dvs None t) x) ! j = vals \<lparr>shape = [1, n], vals = vals b\<rparr> ! j"
      using call_custom_nth [OF assms(1-7) _ j, of 0] j by (simp del: call.simps)
  qed
qed simp


lemma loss_single_example:
  assumes "shape z = [1, 10]"
  shows "loss_object numeric [y] z = ln (\<Sum>c<10. exp (vals z ! c)) - vals z ! y"
  using assms by (simp add: loss_object_def numeric_def Let_def upt_small lsum_upt)

lemma unit_entry_nth:
  assumes "i < 16" and "j < 10"
  shows "((1::real) # replicate 159 0) ! (i * 10 + j) = (if i = 0 \<and> j = 0 then 1 else 0)"
  using assms by (auto simp: nth_Cons')

lemma unit_column_sum:
  assumes "j < 10"
  shows "(\<Sum>i<16. (- 1) * ((1::real) # replicate 159 0) ! (i * 10 + j)) = (if j = 0 then - 1 else 0)"
proof -
  have "(\<Sum>i<16. (- 1) * ((1::real) # replicate 159 0) ! (i * 10 + j))
        = (\<Sum>i<16::nat. if i = 0 then (if j = 0 then - 1 else 0 :: real) else 0)"
    by (rule sum.cong) (simp_all add: unit_entry_nth assms)
  also have "\<dots> = (if j = 0 then - 1 else 0)" by (simp add: sum.delta')
  finally show ?thesis .
qed

lemma sum_exp_logits: "(\<Sum>c<10. exp (((- 1 :: real) # replicate 9 0) ! c)) = exp (- 1) + 9"
proof -
  have "(\<Sum>c<10. exp (((- 1 :: real) # replicate 9 0) ! c))
        = (\<Sum>c<10::nat. if c = 0 then exp (- 1 :: real) - 1 else 0) + (\<Sum>c<10::nat. 1)"
    unfolding sum.distrib [symmetric] by (rule sum.cong) (auto simp: nth_Cons')
  then show ?thesis by (simp add: sum.delta')
qed

lemma loss_gap: "ln (10::real) < ln (exp (- 1) + 9) + 1"
proof -
  have e: "(1::real) < exp 1" by simp
  have p: "0 < exp (- 1) + (9::real)" by (simp add: add_pos_pos)
  have q: "0 < 1 + 9 * exp (1::real)" by (intro add_pos_pos) simp_all
  have r: "(10::real) < 1 + 9 * exp 1" using e by simp
  have "ln (exp (- 1) + 9) + 1 = ln ((exp (- 1) + 9) * exp (1::real))"
    using p by (subst ln_mult) simp_all
  also have "(exp (- 1) + 9) * exp (1::real) = 1 + 9 * exp 1"
    by (simp add: algebra_simps flip: exp_add)
  finally have "ln (exp (- 1) + 9) + 1 = ln (1 + 9 * exp (1::real))" .
  moreover have "ln (10::real) < ln (1 + 9 * exp 1)"
    by (rule iffD2 [OF ln_less_cancel_iff]) (rule r q | simp)+
  ultimately show ?thesis by simp
qed

text \<open>
  Claim C1 fails on the code. With first-layer weights zero, second-layer kernel zero and
  bias \<open>-1\<close>, last-layer kernel \<open>W3[0,0] = 1\<close> (zero elsewhere) and a blank image, the
  trained model outputs the logits \<open>(0, ..., 0)\<close> with loss \<open>ln 10\<close>, whereas
  \<open>model_c\<close> at coordinates \<open>(0,0)\<close> outputs \<open>(-1, 0, ..., 0)\<close> with a larger loss: the
  custom layer is built without the \<open>relu\<close> of the layer it replaces.
\<close>

theorem model_c_not_equivalent:
  "\<exists>mc. model_c (x_star (model (zeros [784, 16]) (zeros [16]) (zeros [16, 16])
                          \<lparr>shape = [16], vals = replicate 16 (- 1)\<rparr>
                          \<lparr>shape = [16, 10], vals = 1 # replicate 159 0\<rparr> (zeros [10])))
            (zeros [2, 256]) (zeros [784, 16]) (zeros [16]) [0, 0] (zeros [16, 10]) (zeros [10])
          = Inr mc \<and>
         sequential numeric (model (zeros [784, 16]) (zeros [16]) (zeros [16, 16])
                          \<lparr>shape = [16], vals = replicate 16 (- 1)\<rparr>
                          \<lparr>shape = [16, 10], vals = 1 # replicate 159 0\<rparr> (zeros [10]))
            (zeros [1, 28, 28, 1]) = \<lparr>shape = [1, 10], vals = replicate 10 0\<rparr> \<and>
         sequential numeric mc (zeros [1, 28, 28, 1]) = \<lparr>shape = [1, 10], vals = - 1 # replicate 9 0\<rparr> \<and>
         loss numeric (model (zeros [784, 16]) (zeros [16]) (zeros [16, 16])
                          \<lparr>shape = [16], vals = replicate 16 (- 1)\<rparr>
                          \<lparr>shape = [16, 10], vals = 1 # replicate 159 0\<rparr> (zeros [10]))
            (zeros [1, 28, 28, 1]) [0] = ln 10 \<and>
         loss numeric mc (zeros [1, 28, 28, 1]) [0] = ln (exp (- 1) + 9) + 1 \<and>
         ln (10::real) < ln (exp (- 1) + 9) + 1"
proof -
  let ?B2 = "\<lparr>shape = [16], vals = replicate 16 (- 1 :: real)\<rparr>"
  let ?K3 = "\<lparr>shape = [16, 10], vals = (1::real) # replicate 159 0\<rparr>"
  let ?X0 = "zeros [1, 28, 28, 1] :: real tensor"
  let ?h0 = "\<lparr>shape = [1, 16], vals = replicate 16 (0::real)\<rparr>"
  let ?dvs = "reshape (zeros [2, 256] :: real tensor) [2, 16, 16]"
  let ?L1 = "Dense 16 (Some ReLU) (zeros [784, 16]) (zeros [16] :: real tensor)"
  let ?L2 = "Dense 16 (Some ReLU) (zeros [16, 16]) ?B2"
  let ?C2 = "CustomLayer [zeros [16, 16], ?B2] ?dvs None (zeros [2])"
  let ?L3 = "Dense 10 None ?K3 (zeros [10])"
  have mc: "model_c (x_star (model (zeros [784, 16]) (zeros [16]) (zeros [16, 16]) ?B2 ?K3 (zeros [10])))
            (zeros [2, 256]) (zeros [784, 16]) (zeros [16]) [0, 0] (zeros [16, 10]) (zeros [10])
          = Inr [Flatten, ?L1, ?C2, ?L3]"
    by (subst model_c_value) (simp_all add: zeros_def)
  have flat: "call numeric Flatten ?X0 = \<lparr>shape = [1, 784], vals = replicate 784 0\<rparr>"
    by (simp add: zeros_def reshape_def)
  have h1: "call numeric ?L1 \<lparr>shape = [1, 784], vals = replicate 784 0\<rparr> = ?h0"
    by (subst dense_zero_input [where m = 784 and n = 16]) (simp_all add: zeros_def numeric_def relu_def)
  have h2: "call numeric ?L2 ?h0 = ?h0"
    by (subst dense_zero_input [where m = 16 and n = 16]) (simp_all add: zeros_def numeric_def relu_def)
  have h2c: "call numeric ?C2 ?h0 = \<lparr>shape = [1, 16], vals = replicate 16 (- 1)\<rparr>"
    by (subst custom_zero_input [where m = 16 and n = 16]) (simp_all add: zeros_def reshape_def)
  have out: "call numeric ?L3 ?h0 = \<lparr>shape = [1, 10], vals = replicate 10 0\<rparr>"
    by (subst dense_zero_input [where m = 16 and n = 10]) (simp_all add: zeros_def)
  have outc: "call numeric ?L3 \<lparr>shape = [1, 16], vals = replicate 16 (- 1)\<rparr>
              = \<lparr>shape = [1, 10], vals = - 1 # replicate 9 0\<rparr>"
  proof (rule tensor.equality)
    show "shape (call numeric ?L3 \<lparr>shape = [1, 16], vals = replicate 16 (- 1)\<rparr>)
          = shape \<lparr>shape = [1, 10], vals = - 1 # replicate 9 (0::real)\<rparr>"
      by (subst call_dense_shape [where m = 16 and n = 10 and N = 1]) simp_all
    show "vals (call numeric ?L3 \<lparr>shape = [1, 16], vals = replicate 16 (- 1)\<rparr>)
          = vals \<lparr>shape = [1, 10], vals = - 1 # replicate 9 (0::real)\<rparr>"
    proof (rule nth_equalityI)
      show "length (vals (call numeric ?L3 \<lparr>shape = [1, 16], vals = replicate 16 (- 1)\<rparr>))
            = length (vals \<lparr>shape = [1, 10], vals = - 1 # replicate 9 (0::real)\<rparr>)"
        by (subst call_dense_length [where m = 16 and n = 10 and N = 1]) simp_all
    next
      fix j assume "j < length (vals (call numeric ?L3 \<lparr>shape = [1, 16], vals = replicate 16 (- 1)\<rparr>))"
      then have j: "j < 10"
        by (subst (asm) call_dense_length [where m = 16 and n = 10 and N = 1]) simp_all
      have "vals (call numeric ?L3 \<lparr>shape = [1, 16], vals = replicate 16 (- 1)\<rparr>) ! (0 * 10 + j)
            = (case None :: activation option of None \<Rightarrow> (\<lambda>z. z) | Some g \<Rightarrow> activation_fn numeric g)
               ((\<Sum>i<16. vals \<lparr>shape = [1, 16], vals = replicate 16 (- 1 :: real)\<rparr> ! (0 * 16 + i)
                   * vals ?K3 ! (i * 10 + j)) + vals (zeros [10] :: real tensor) ! j)"
        by (rule call_dense_nth [where N = 1 and m = 16 and n = 10 and s = 0]) (simp_all add: zeros_def j)
      also have "(\<Sum>i<16. vals \<lparr>shape = [1, 16], vals = replicate 16 (- 1 :: real)\<rparr> ! (0 * 16 + i)
                   * vals ?K3 ! (i * 10 + j))
                 = (\<Sum>i<16. (- 1) * ((1::real) # replicate 159 0) ! (i * 10 + j))"
        by (rule sum.cong) simp_all
      also have "\<dots> = (if j = 0 then - 1 else 0)" by (rule unit_column_sum [OF j])
      finally show "vals (call numeric ?L3 \<lparr>shape = [1, 16], vals = replicate 16 (- 1)\<rparr>) ! j
            = vals \<lparr>shape = [1, 10], vals = - 1 # replicate 9 (0::real)\<rparr> ! j"
        using j by (simp add: zeros_def nth_Cons' del: call.simps)
    qed
  qed simp
  have seq: "sequential numeric (model (zeros [784, 16]) (zeros [16]) (zeros [16, 16]) ?B2 ?K3 (zeros [10])) ?X0
             = \<lparr>shape = [1, 10], vals = replicate 10 0\<rparr>"
    unfolding sequential_def model_def fold_simps comp_def flat h1 h2 out id_def ..
  have seqc: "sequential numeric [Flatten, ?L1, ?C2, ?L3] ?X0
             = \<lparr>shape = [1, 10], vals = - 1 # replicate 9 0\<rparr>"
    unfolding sequential_def fold_simps comp_def flat h1 h2c outc id_def ..
  have l: "loss numeric (model (zeros [784, 16]) (zeros [16]) (zeros [16, 16]) ?B2 ?K3 (zeros [10])) ?X0 [0] = ln 10"
    unfolding loss_def Let_def seq by (subst loss_single_example) simp_all
  have lc: "loss numeric [Flatten, ?L1, ?C2, ?L3] ?X0 [0] = ln (exp (- 1) + 9) + 1"
    unfolding loss_def Let_def seqc by (subst loss_single_example) (simp_all add: sum_exp_logits)
  show ?thesis
    unfolding mc using seq seqc l lc loss_gap by simp
qed

section \<open>Differentiation of recorded expressions\<close>

lemma eval_diff_commute: "eval \<theta> (diff x (diff y u)) = eval \<theta> (diff y (diff x u))"
  by (induction u) (simp_all add: algebra_simps)

lemma eval_shift_indep: "\<not> depends u b \<Longrightarrow> eval (shift \<theta> b q t) u = eval \<theta> u"
  by (induction u) (simp_all add: shift_def)

lemma eval_diff_indep: "\<not> depends u b \<Longrightarrow> eval \<theta> (diff (Var b q) u) = 0"
  by (induction u) auto

lemma relu_deriv_pos: "0 < x \<Longrightarrow> (relu has_real_derivative 1) (at x)"
proof -
  assume x: "0 < x"
  have "eventually (\<lambda>y. y \<in> {0<..}) (nhds x)"
    by (rule eventually_nhds_in_open) (use x in simp_all)
  then have "eventually (\<lambda>y. relu y = y) (nhds x)"
    by (rule eventually_mono) (simp add: relu_def)
  then show ?thesis
    by (subst DERIV_cong_ev [OF refl _ refl]) auto
qed

lemma relu_deriv_neg: "x < 0 \<Longrightarrow> (relu has_real_derivative 0) (at x)"
proof -
  assume x: "x < 0"
  have "eventually (\<lambda>y. y \<in> {..<0}) (nhds x)"
    by (rule eventually_nhds_in_open) (use x in simp_all)
  then have "eventually (\<lambda>y. relu y = 0) (nhds x)"
    by (rule eventually_mono) (simp add: relu_def)
  then show ?thesis
    by (subst DERIV_cong_ev [OF refl _ refl]) auto
qed

lemma relu_deriv: "x \<noteq> 0 \<Longrightarrow> (relu has_real_derivative (if 0 < x then 1 else 0)) (at x)"
  using relu_deriv_pos [of x] relu_deriv_neg [of x] by (cases "0 < x") auto

lemma step_deriv: "x \<noteq> 0 \<Longrightarrow> ((\<lambda>y. if 0 < y then 1 else (0::real)) has_real_derivative 0) (at x)"
proof -
  assume x: "x \<noteq> 0"
  have "eventually (\<lambda>y. (if 0 < y then 1 else (0::real)) = (if 0 < x then 1 else 0)) (nhds x)"
  proof (cases "0 < x")
    case True
    have "eventually (\<lambda>y. y \<in> {0<..}) (nhds x)"
      by (rule eventually_nhds_in_open) (use True in simp_all)
    then show ?thesis by (rule eventually_mono) (use True in simp)
  next
    case False
    then have n: "x < 0" using x by simp
    have "eventually (\<lambda>y. y \<in> {..<0}) (nhds x)"
      by (rule eventually_nhds_in_open) (use n in simp_all)
    then show ?thesis by (rule eventually_mono) (use n in simp)
  qed
  then show ?thesis
    by (subst DERIV_cong_ev [OF refl _ refl]) auto
qed

lemma shift_zero: "shift \<theta> b q 0 = \<theta>"
  by (simp add: shift_def fun_eq_iff)

lemma indep_sound:
  "\<not> depends u b \<Longrightarrow>
   ((\<lambda>t. eval (shift \<theta> b q t) u) has_real_derivative eval \<theta> (diff (Var b q) u)) (at 0)"
  by (simp add: eval_shift_indep eval_diff_indep)

lemma diff_sound:
  "smooth b \<theta> u \<Longrightarrow>
   ((\<lambda>t. eval (shift \<theta> b q t) u) has_real_derivative eval \<theta> (diff (Var b q) u)) (at 0)"
proof (induction u)
  case (Const c)
  then show ?case by simp
next
  case (Var b' k)
  then show ?case by (auto simp: shift_def intro!: derivative_eq_intros)
next
  case (Add u v)
  then show ?case by (auto intro!: derivative_eq_intros)
next
  case (Sub u v)
  then show ?case by (auto intro!: derivative_eq_intros)
next
  case (Mul u v)
  from Mul have "((\<lambda>t. eval (shift \<theta> b q t) u * eval (shift \<theta> b q t) v) has_real_derivative
      eval \<theta> (diff (Var b q) u) * eval (shift \<theta> b q 0) v + eval (shift \<theta> b q 0) u * eval \<theta> (diff (Var b q) v)) (at 0)"
    by (auto intro!: derivative_eq_intros)
  then show ?case by (simp add: shift_zero)
next
  case (Inv u)
  show ?case
  proof (cases "depends u b")
    case True
    then have nz: "eval (shift \<theta> b q 0) u \<noteq> 0" using Inv.prems by (simp add: shift_zero)
    have d: "((\<lambda>t. eval (shift \<theta> b q t) u) has_real_derivative eval \<theta> (diff (Var b q) u)) (at 0)"
      using Inv by simp
    show ?thesis using DERIV_inverse' [OF d nz] by (simp add: shift_zero algebra_simps)
  next
    case False
    then show ?thesis using indep_sound [of "Inv u" b \<theta> q] by simp
  qed
next
  case (Relu u)
  show ?case
  proof (cases "depends u b")
    case True
    then have nz: "eval (shift \<theta> b q 0) u \<noteq> 0" using Relu.prems by (simp add: shift_zero)
    have d: "((\<lambda>t. eval (shift \<theta> b q t) u) has_real_derivative eval \<theta> (diff (Var b q) u)) (at 0)"
      using Relu by simp
    show ?thesis using DERIV_chain' [OF d relu_deriv [OF nz]] by (simp add: shift_zero)
  next
    case False
    then show ?thesis using indep_sound [of "Relu u" b \<theta> q] by simp
  qed
next
  case (Step u)
  show ?case
  proof (cases "depends u b")
    case True
    then have nz: "eval (shift \<theta> b q 0) u \<noteq> 0" using Step.prems by (simp add: shift_zero)
    have d: "((\<lambda>t. eval (shift \<theta> b q t) u) has_real_derivative eval \<theta> (diff (Var b q) u)) (at 0)"
      using Step by simp
    show ?thesis using DERIV_chain' [OF d step_deriv [OF nz]] by simp
  next
    case False
    then show ?thesis using indep_sound [of "Step u" b \<theta> q] by simp
  qed
next
  case (Exp u)
  have d: "((\<lambda>t. eval (shift \<theta> b q t) u) has_real_derivative eval \<theta> (diff (Var b q) u)) (at 0)"
    using Exp by simp
  show ?case using DERIV_chain' [OF d DERIV_exp] by (simp add: shift_zero)
next
  case (Log u)
  show ?case
  proof (cases "depends u b")
    case True
    then have pos: "0 < eval (shift \<theta> b q 0) u" using Log.prems by (simp add: shift_zero)
    have d: "((\<lambda>t. eval (shift \<theta> b q t) u) has_real_derivative eval \<theta> (diff (Var b q) u)) (at 0)"
      using Log by simp
    show ?thesis using DERIV_chain' [OF d DERIV_ln [OF pos]] by (simp add: shift_zero)
  next
    case False
    then show ?thesis using indep_sound [of "Log u" b \<theta> q] by simp
  qed
qed

lemma smooth_diff: "smooth b \<theta> u \<Longrightarrow> smooth b \<theta> (diff (Var b q) u)"
  by (induction u) auto

lemma smooth_diffs: "smooth b \<theta> u \<Longrightarrow> smooth b \<theta> (iterated_diff b qs u)"
  by (induction qs) (simp_all add: smooth_diff)

lemma ev_nonzero:
  fixes f :: "real \<Rightarrow> real"
  assumes "(f has_real_derivative D) (at 0)" and "f 0 \<noteq> 0"
  shows "eventually (\<lambda>t. f t \<noteq> 0) (nhds 0)"
proof -
  have c: "f \<midarrow>0\<rightarrow> f 0" using DERIV_isCont [OF assms(1)] by (simp add: isCont_def)
  have "eventually (\<lambda>t. f t \<noteq> 0) (at 0)" by (rule tendsto_imp_eventually_ne [OF c assms(2)])
  then have "eventually (\<lambda>t. t \<noteq> 0 \<longrightarrow> f t \<noteq> 0) (nhds 0)" by (simp add: eventually_at_filter)
  then show ?thesis by (rule eventually_mono) (use assms(2) in auto)
qed

lemma ev_positive:
  fixes f :: "real \<Rightarrow> real"
  assumes "(f has_real_derivative D) (at 0)" and "0 < f 0"
  shows "eventually (\<lambda>t. 0 < f t) (nhds 0)"
proof -
  have c: "f \<midarrow>0\<rightarrow> f 0" using DERIV_isCont [OF assms(1)] by (simp add: isCont_def)
  have "eventually (\<lambda>t. 0 < f t) (at 0)" by (rule order_tendstoD(1) [OF c assms(2)])
  then have "eventually (\<lambda>t. t \<noteq> 0 \<longrightarrow> 0 < f t) (nhds 0)" by (simp add: eventually_at_filter)
  then show ?thesis by (rule eventually_mono) (use assms(2) in auto)
qed


lemma smooth_nearby:
  "smooth b \<theta> u \<Longrightarrow> eventually (\<lambda>t. smooth b (shift \<theta> b q t) u) (nhds 0)"
proof (induction u)
  case (Add u v)
  then have "eventually (\<lambda>t. smooth b (shift \<theta> b q t) u) (nhds 0)"
    and "eventually (\<lambda>t. smooth b (shift \<theta> b q t) v) (nhds 0)" by simp_all
  then show ?case by eventually_elim simp
next
  case (Sub u v)
  then have "eventually (\<lambda>t. smooth b (shift \<theta> b q t) u) (nhds 0)"
    and "eventually (\<lambda>t. smooth b (shift \<theta> b q t) v) (nhds 0)" by simp_all
  then show ?case by eventually_elim simp
next
  case (Mul u v)
  then have "eventually (\<lambda>t. smooth b (shift \<theta> b q t) u) (nhds 0)"
    and "eventually (\<lambda>t. smooth b (shift \<theta> b q t) v) (nhds 0)" by simp_all
  then show ?case by eventually_elim simp
next
  case (Inv u)
  then have ev: "eventually (\<lambda>t. smooth b (shift \<theta> b q t) u) (nhds 0)" by simp
  show ?case
  proof (cases "depends u b")
    case True
    then have nz: "eval (shift \<theta> b q 0) u \<noteq> 0" using Inv.prems by (simp add: shift_zero)
    have "eventually (\<lambda>t. eval (shift \<theta> b q t) u \<noteq> 0) (nhds 0)"
      using ev_nonzero [OF diff_sound nz] Inv.prems by simp
    with ev show ?thesis by eventually_elim simp
  next
    case False
    from ev show ?thesis by eventually_elim (use False in simp)
  qed
next
  case (Relu u)
  then have ev: "eventually (\<lambda>t. smooth b (shift \<theta> b q t) u) (nhds 0)" by simp
  show ?case
  proof (cases "depends u b")
    case True
    then have nz: "eval (shift \<theta> b q 0) u \<noteq> 0" using Relu.prems by (simp add: shift_zero)
    have "eventually (\<lambda>t. eval (shift \<theta> b q t) u \<noteq> 0) (nhds 0)"
      using ev_nonzero [OF diff_sound nz] Relu.prems by simp
    with ev show ?thesis by eventually_elim simp
  next
    case False
    from ev show ?thesis by eventually_elim (use False in simp)
  qed
next
  case (Step u)
  then have ev: "eventually (\<lambda>t. smooth b (shift \<theta> b q t) u) (nhds 0)" by simp
  show ?case
  proof (cases "depends u b")
    case True
    then have nz: "eval (shift \<theta> b q 0) u \<noteq> 0" using Step.prems by (simp add: shift_zero)
    have "eventually (\<lambda>t. eval (shift \<theta> b q t) u \<noteq> 0) (nhds 0)"
      using ev_nonzero [OF diff_sound nz] Step.prems by simp
    with ev show ?thesis by eventually_elim simp
  next
    case False
    from ev show ?thesis by eventually_elim (use False in simp)
  qed
next
  case (Log u)
  then have ev: "eventually (\<lambda>t. smooth b (shift \<theta> b q t) u) (nhds 0)" by simp
  show ?case
  proof (cases "depends u b")
    case True
    then have pos: "0 < eval (shift \<theta> b q 0) u" using Log.prems by (simp add: shift_zero)
    have "eventually (\<lambda>t. 0 < eval (shift \<theta> b q t) u) (nhds 0)"
      using ev_positive [OF diff_sound pos] Log.prems by simp
    with ev show ?thesis by eventually_elim simp
  next
    case False
    from ev show ?thesis by eventually_elim (use False in simp)
  qed
qed simp_all

lemma diffs_sound:
  "smooth b \<theta> u \<Longrightarrow> has_partials qs (\<lambda>\<theta>'. eval \<theta>' u) b \<theta> (eval \<theta> (iterated_diff b qs u))"
proof (induction qs arbitrary: \<theta>)
  case Nil
  then show ?case by simp
next
  case (Cons q ps)
  let ?G = "\<lambda>t. eval (shift \<theta> b q t) (iterated_diff b ps u)"
  have "eventually (\<lambda>t. smooth b (shift \<theta> b q t) u) (nhds 0)"
    using smooth_nearby [OF Cons.prems] .
  then have a: "eventually (\<lambda>t. has_partials ps (\<lambda>\<theta>'. eval \<theta>' u) b (shift \<theta> b q t) (?G t)) (nhds 0)"
    by (rule eventually_mono) (rule Cons.IH)
  have b: "(?G has_real_derivative eval \<theta> (iterated_diff b (q # ps) u)) (at 0)"
    using diff_sound [of b \<theta> "iterated_diff b ps u" q] smooth_diffs [OF Cons.prems, of ps] by simp
  show ?case unfolding has_partials.simps by (intro exI [of _ ?G] conjI a b)
qed

section \<open>The Hessian of the trained model\<close>

lemma length_concat_map2: "length (concat (map (\<lambda>u. map (g u) ys) xs)) = length xs * length ys"
  by (induction xs) simp_all

lemma nth_concat_map2:
  "i < length xs \<Longrightarrow> j < length ys \<Longrightarrow>
   concat (map (\<lambda>u. map (g u) ys) xs) ! (i * length ys + j) = g (xs ! i) (ys ! j)"
proof (induction xs arbitrary: i)
  case Nil
  then show ?case by simp
next
  case (Cons x xs)
  show ?case
  proof (cases i)
    case 0
    then show ?thesis using Cons.prems by (simp add: nth_append)
  next
    case (Suc i')
    then show ?thesis using Cons.prems Cons.IH [of i'] by (simp add: nth_append)
  qed
qed

lemma jacobian_shape: "shape (jacobian target sources) = shape target @ shape sources"
  by (simp add: jacobian_def)

lemma jacobian_length:
  "length (vals (jacobian target sources)) = length (vals target) * length (vals sources)"
  by (simp add: jacobian_def length_concat_map2)

lemma jacobian_nth:
  "p < length (vals target) \<Longrightarrow> q < length (vals sources) \<Longrightarrow>
   vals (jacobian target sources) ! (p * length (vals sources) + q)
     = diff (vals sources ! q) (vals target ! p)"
  by (simp add: jacobian_def nth_concat_map2)

lemma var_tensor_simps:
  "shape (var_tensor b s) = s" "length (vals (var_tensor b s)) = prod_list s"
  "q < prod_list s \<Longrightarrow> vals (var_tensor b s) ! q = Var b q"
  by (simp_all add: var_tensor_def)

lemma gradient_simps:
  "shape (gradient u sources) = shape sources"
  "length (vals (gradient u sources)) = length (vals sources)"
  "q < length (vals sources) \<Longrightarrow> vals (gradient u sources) ! q = diff (vals sources ! q) u"
  by (simp_all add: gradient_def)

lemma watch_model:
  "watch (model k1 b1 k2 b2 k3 b3) =
     [Flatten,
      Dense 16 (Some ReLU) (var_tensor 0 (shape k1)) (var_tensor 1 (shape b1)),
      Dense 16 (Some ReLU) (var_tensor 2 (shape k2)) (var_tensor 3 (shape b2)),
      Dense 10 None (var_tensor 4 (shape k3)) (var_tensor 5 (shape b3))]"
  by (simp add: watch_def model_def numeral_eq_Suc)

lemma T2_compute_model:
  "T2_compute (model k1 b1 k2 b2 k3 b3) x y (- 4) =
     Inr (tmap (eval (variable_values (model k1 b1 k2 b2 k3 b3)))
            (jacobian (gradient (loss tape (watch (model k1 b1 k2 b2 k3 b3)) (tmap Const x) y)
                         (var_tensor 2 (shape k2)))
                      (var_tensor 2 (shape k2))))"
  by (simp add: T2_compute_def Let_def watch_model trainable_variables_def py_get_def ebind_def
      del: call.simps)

lemma hessian_entry:
  assumes "shape k2 = [16, 16]" and "p < 256" and "q < 256"
  shows "\<exists>H. hessian (model k1 b1 k2 b2 k3 b3) x y = Inr H \<and> shape H = [256, 256] \<and>
           tget H [p, q] =
             eval (variable_values (model k1 b1 k2 b2 k3 b3))
               (diff (Var 2 q) (diff (Var 2 p)
                  (loss tape (watch (model k1 b1 k2 b2 k3 b3)) (tmap Const x) y)))"
proof -
  let ?L = "loss tape (watch (model k1 b1 k2 b2 k3 b3)) (tmap Const x) y"
  let ?v = "var_tensor 2 [16, 16]"
  let ?J = "jacobian (gradient ?L ?v) ?v"
  have lv: "length (vals ?v) = 256" by (simp add: var_tensor_simps)
  have pq: "p * 256 + q < 256 * 256" using assms(2,3) by (rule grid_index_less)
  have len: "length (vals ?J) = 256 * 256" by (simp add: jacobian_length gradient_simps lv)
  have "vals ?J ! (p * length (vals ?v) + q) = diff (vals ?v ! q) (vals (gradient ?L ?v) ! p)"
    by (rule jacobian_nth) (simp_all add: gradient_simps lv assms)
  then have e: "vals ?J ! (p * 256 + q) = diff (Var 2 q) (diff (Var 2 p) ?L)"
    using assms(2,3) by (simp add: lv gradient_simps var_tensor_simps)
  show ?thesis
    unfolding hessian_def T2_compute_model assms(1)
    using e pq len
    by (simp add: ebind_def tmap_def reshape_def jacobian_shape gradient_simps var_tensor_simps tget_def)
qed

text \<open>
  Claim C6. The matrix \<open>hessian\<close> that \<open>T2_compute\<close> and the reshape produce for the
  trained model is symmetric: \<open>H[p,q] = H[q,p]\<close> for all \<open>p, q < 256\<close>, in exact
  arithmetic.
\<close>

theorem hessian_symmetric:
  assumes "shape k2 = [16, 16]" and "p < 256" and "q < 256"
  shows "\<exists>H. hessian (model k1 b1 k2 b2 k3 b3) x y = Inr H \<and> shape H = [256, 256] \<and>
           tget H [p, q] = tget H [q, p]"
  using hessian_entry [OF assms, of k1 b1 b2 k3 b3 x y] hessian_entry [OF assms(1,3,2), of k1 b1 b2 k3 b3 x y]
  by (auto simp: eval_diff_commute)

theorem hessian_symmetric_witness:
  "shape (zeros [16, 16] :: real tensor) = [16, 16] \<and> (3::nat) < 256 \<and> (200::nat) < 256 \<and>
   (\<exists>H. hessian (model (zeros [784, 16]) (zeros [16]) (zeros [16, 16]) (zeros [16])
                      (zeros [16, 10]) (zeros [10])) (zeros [1, 28, 28, 1]) [0] = Inr H \<and>
        shape H = [256, 256] \<and> tget H [3, 200] = tget H [200, 3])"
proof -
  have s: "shape (zeros [16, 16] :: real tensor) = [16, 16]" by (simp add: zeros_def)
  show ?thesis
    using hessian_symmetric [OF s, of 3 200 "zeros [784, 16]" "zeros [16]" "zeros [16]"
        "zeros [16, 10]" "zeros [10]" "zeros [1, 28, 28, 1]" "[0]"] s
    by simp
qed


section \<open>The recorded computation and the numeric one\<close>

lemma eval_lsum: "eval \<theta> (lsum es) = lsum (map (eval \<theta>) es)"
  by (induction es) (simp_all add: lsum_def plus_expr_def zero_expr_def)

lemma eval_ops:
  "eval \<theta> (u + v) = eval \<theta> u + eval \<theta> v"
  "eval \<theta> (u - v) = eval \<theta> u - eval \<theta> v"
  "eval \<theta> (u * v) = eval \<theta> u * eval \<theta> v"
  "eval \<theta> (u / v) = eval \<theta> u / eval \<theta> v"
  "eval \<theta> 0 = 0"
  by (simp_all add: plus_expr_def minus_expr_def times_expr_def divide_expr_def zero_expr_def
      divide_inverse)


lemma eval_matmul:
  assumes "shape a = [p, q]" and "length (vals a) = p * q"
    and "shape b = [q, r]" and "length (vals b) = q * r"
  shows "tmap (eval \<theta>) (matmul a b) = matmul (tmap (eval \<theta>) a) (tmap (eval \<theta>) b)"
proof -
  have pt: "eval \<theta> (vals a ! (i * q + k) * vals b ! (k * r + j))
            = map (eval \<theta>) (vals a) ! (i * q + k) * map (eval \<theta>) (vals b) ! (k * r + j)"
    if "i < p" and "j < r" and "k < q" for i j k
  proof -
    have "i * q + k < p * q" "k * r + j < q * r"
      using grid_index_less [of i p k q] grid_index_less [of k q j r] that by simp_all
    then show ?thesis using assms(2,4) by (simp add: eval_ops)
  qed
  show ?thesis
    using assms(1,3)
    apply (simp add: matmul_def Let_def tmap_def map_concat comp_def eval_lsum)
    apply (intro arg_cong [where f = concat] arg_cong [where f = lsum] map_cong refl)
    apply (simp add: pt)
    done
qed

lemma eval_tadd:
  assumes "vals b \<noteq> []"
  shows "tmap (eval \<theta>) (tadd a b) = tadd (tmap (eval \<theta>) a) (tmap (eval \<theta>) b)"
  using assms by (simp add: tadd_def tmap_def eval_ops)



lemma eval_call_flatten:
  "tmap (eval \<theta>) (call tape Flatten x) = call numeric Flatten (tmap (eval \<theta>) x)"
  by (simp add: tmap_def reshape_def)

lemma eval_activation:
  "tmap (eval \<theta>) (tmap (activation_fn tape g) t) = tmap (activation_fn numeric g) (tmap (eval \<theta>) t)"
  by (cases g) (simp add: tmap_def tape_def numeric_def)

lemma eval_call_dense:
  assumes "shape x = [N, m]" and "length (vals x) = N * m"
    and "shape W = [m, n]" and "length (vals W) = m * n" and "vals b \<noteq> []"
  shows "tmap (eval \<theta>) (call tape (Dense u a W b) x)
         = call numeric (Dense u a (tmap (eval \<theta>) W) (tmap (eval \<theta>) b)) (tmap (eval \<theta>) x)"
  using eval_matmul [OF assms(1-4), of \<theta>] eval_tadd [OF assms(5), of \<theta> "matmul x W"]
  by (cases a) (simp_all add: Let_def eval_activation)


lemma eval_loss_object:
  assumes "shape z = [N, C]" and "length (vals z) = N * C" and "\<And>s. s < N \<Longrightarrow> y ! s < C"
  shows "eval \<theta> (loss_object tape y z) = loss_object numeric y (tmap (eval \<theta>) z)"
proof -
  have pt: "eval \<theta> (vals z ! (s * C + c)) = map (eval \<theta>) (vals z) ! (s * C + c)"
    if "s < N" and "c < C" for s c
    using grid_index_less [OF that] assms(2) by simp
  have py: "eval \<theta> (vals z ! (s * C + y ! s)) = map (eval \<theta>) (vals z) ! (s * C + y ! s)"
    if "s < N" for s
    using pt [OF that assms(3) [OF that]] .
  have e1: "map (\<lambda>c. exp (eval \<theta> (vals z ! (s * C + c)))) [0..<C]
            = map (\<lambda>c. exp (map (eval \<theta>) (vals z) ! (s * C + c))) [0..<C]" if "s < N" for s
    by (rule map_cong) (simp_all add: pt that)
  have inner: "map (\<lambda>s. ln (lsum (map (\<lambda>c. exp (eval \<theta> (vals z ! (s * C + c)))) [0..<C]))
                        - eval \<theta> (vals z ! (s * C + y ! s))) [0..<N]
             = map (\<lambda>s. ln (lsum (map (\<lambda>c. exp (map (eval \<theta>) (vals z) ! (s * C + c))) [0..<C]))
                        - map (eval \<theta>) (vals z) ! (s * C + y ! s)) [0..<N]"
    by (rule map_cong) (simp_all add: e1 py)
  show ?thesis
    using assms(1)
    by (simp add: loss_object_def Let_def tmap_def eval_ops eval_lsum tape_def numeric_def comp_def inner)
qed


lemma tmap_eval_Const: "tmap (eval \<theta>) (tmap Const x) = x"
  by (simp add: tmap_def comp_def)

lemma call_flatten_simps:
  assumes "shape x = N # rest"
  shows "shape (call bk Flatten x) = [N, prod_list rest]"
    "vals (call bk Flatten x) = vals x"
  using assms by (simp_all add: reshape_def)

lemma var_tensor_ne: "0 < prod_list s \<Longrightarrow> vals (var_tensor b s) \<noteq> []"
  by (simp add: var_tensor_def)

text \<open>The recorded forward pass of the trained model, layer by layer.\<close>

lemma eval_sequential_model:
  assumes "shape k1 = [d, 16]" and "shape b1 = [16]" and "shape k2 = [16, 16]"
    and "shape b2 = [16]" and "shape k3 = [16, 10]" and "shape b3 = [10]"
    and "shape x = N # rest" and "prod_list rest = d" and "length (vals x) = N * d"
  shows "tmap (eval \<theta>) (sequential tape (watch (model k1 b1 k2 b2 k3 b3)) (tmap Const x))
         = sequential numeric (with_values (model k1 b1 k2 b2 k3 b3) \<theta>) x"
    and "shape (sequential tape (watch (model k1 b1 k2 b2 k3 b3)) (tmap Const x)) = [N, 10]"
    and "length (vals (sequential tape (watch (model k1 b1 k2 b2 k3 b3)) (tmap Const x))) = N * 10"
proof -
  let ?V0 = "var_tensor 0 [d, 16]" and ?V1 = "var_tensor 1 [16]" and ?V2 = "var_tensor 2 [16, 16]"
    and ?V3 = "var_tensor 3 [16]" and ?V4 = "var_tensor 4 [16, 10]" and ?V5 = "var_tensor 5 [10]"
  let ?f0 = "call tape Flatten (tmap Const x)"
  let ?h1 = "call tape (Dense 16 (Some ReLU) ?V0 ?V1) ?f0"
  let ?h2 = "call tape (Dense 16 (Some ReLU) ?V2 ?V3) ?h1"
  let ?z = "call tape (Dense 10 None ?V4 ?V5) ?h2"
  have f0: "shape ?f0 = [N, d]" "length (vals ?f0) = N * d"
    using assms(7,8,9) by (simp_all add: reshape_def tmap_def)
  have h1: "shape ?h1 = [N, 16]" "length (vals ?h1) = N * 16"
    using call_dense_shape [OF _ f0(1), of ?V0 16] call_dense_length [OF _ f0(1), of ?V0 16]
    by (simp_all add: var_tensor_simps del: call.simps)
  have h2: "shape ?h2 = [N, 16]" "length (vals ?h2) = N * 16"
    using call_dense_shape [OF _ h1(1), of ?V2 16] call_dense_length [OF _ h1(1), of ?V2 16]
    by (simp_all add: var_tensor_simps del: call.simps)
  have z: "shape ?z = [N, 10]" "length (vals ?z) = N * 10"
    using call_dense_shape [OF _ h2(1), of ?V4 10] call_dense_length [OF _ h2(1), of ?V4 10]
    by (simp_all add: var_tensor_simps del: call.simps)
  have e0: "tmap (eval \<theta>) ?f0 = call numeric Flatten x"
    by (simp add: eval_call_flatten tmap_eval_Const del: call.simps)
  have e1: "tmap (eval \<theta>) ?h1
            = call numeric (Dense 16 (Some ReLU) (tmap (eval \<theta>) ?V0) (tmap (eval \<theta>) ?V1)) (call numeric Flatten x)"
    by (subst eval_call_dense [OF f0, where n = 16]) (simp_all add: var_tensor_simps var_tensor_ne e0 del: call.simps)
  have e2: "tmap (eval \<theta>) ?h2
            = call numeric (Dense 16 (Some ReLU) (tmap (eval \<theta>) ?V2) (tmap (eval \<theta>) ?V3)) (tmap (eval \<theta>) ?h1)"
    by (subst eval_call_dense [OF h1, where n = 16]) (simp_all add: var_tensor_simps var_tensor_ne del: call.simps)
  have e3: "tmap (eval \<theta>) ?z
            = call numeric (Dense 10 None (tmap (eval \<theta>) ?V4) (tmap (eval \<theta>) ?V5)) (tmap (eval \<theta>) ?h2)"
    by (subst eval_call_dense [OF h2, where n = 10]) (simp_all add: var_tensor_simps var_tensor_ne del: call.simps)
  have seq: "sequential tape (watch (model k1 b1 k2 b2 k3 b3)) (tmap Const x) = ?z"
    by (simp add: sequential_def watch_model assms(1-6) del: call.simps)
  show "tmap (eval \<theta>) (sequential tape (watch (model k1 b1 k2 b2 k3 b3)) (tmap Const x))
         = sequential numeric (with_values (model k1 b1 k2 b2 k3 b3) \<theta>) x"
    unfolding seq e3 e2 e1
    by (simp add: sequential_def with_values_def watch_model assms(1-6) del: call.simps)
  show "shape (sequential tape (watch (model k1 b1 k2 b2 k3 b3)) (tmap Const x)) = [N, 10]"
    unfolding seq by (rule z)
  show "length (vals (sequential tape (watch (model k1 b1 k2 b2 k3 b3)) (tmap Const x))) = N * 10"
    unfolding seq by (rule z)
qed

lemma eval_loss_model:
  assumes "shape k1 = [d, 16]" and "shape b1 = [16]" and "shape k2 = [16, 16]"
    and "shape b2 = [16]" and "shape k3 = [16, 10]" and "shape b3 = [10]"
    and "shape x = N # rest" and "prod_list rest = d" and "length (vals x) = N * d"
    and "\<And>s. s < N \<Longrightarrow> y ! s < 10"
  shows "eval \<theta> (loss tape (watch (model k1 b1 k2 b2 k3 b3)) (tmap Const x) y)
         = loss numeric (with_values (model k1 b1 k2 b2 k3 b3) \<theta>) x y"
  unfolding loss_def Let_def
  using eval_loss_object [OF eval_sequential_model(2,3) [OF assms(1-9)] assms(10), where \<theta> = \<theta>]
    eval_sequential_model(1) [OF assms(1-9), of \<theta>]
  by simp

section \<open>Where the recorded loss is differentiable\<close>

text \<open>Properties of all entries of a tensor that sums and products preserve.\<close>

lemma lsum_closed:
  assumes "\<And>u v. P u \<Longrightarrow> P v \<Longrightarrow> P (u + v)" and "P 0" and "\<And>u. u \<in> set es \<Longrightarrow> P u"
  shows "P (lsum es)"
  using assms(3) by (induction es) (simp_all add: lsum_def assms(1,2))

lemma matmul_closed:
  assumes add: "\<And>u v. P u \<Longrightarrow> P v \<Longrightarrow> P (u + v)" and zero: "P 0"
    and mul: "\<And>u v. P u \<Longrightarrow> P v \<Longrightarrow> P (u * v)"
    and "shape a = [p, q]" and "length (vals a) = p * q"
    and "shape b = [q, r]" and "length (vals b) = q * r"
    and a: "\<And>u. u \<in> set (vals a) \<Longrightarrow> P u" and b: "\<And>u. u \<in> set (vals b) \<Longrightarrow> P u"
    and "w \<in> set (vals (matmul a b))"
  shows "P w"
proof -
  have "w \<in> set (concat (map (\<lambda>i. map (\<lambda>j.
                   lsum (map (\<lambda>k. vals a ! (i * q + k) * vals b ! (k * r + j)) [0..<q]))
                   [0..<r]) [0..<p]))"
    using assms(4,6,10) by (simp add: matmul_def Let_def)
  then obtain i j where ij: "i < p" "j < r"
    and w: "w = lsum (map (\<lambda>k. vals a ! (i * q + k) * vals b ! (k * r + j)) [0..<q])"
    by auto
  have "P (vals a ! (i * q + k) * vals b ! (k * r + j))" if "k < q" for k
  proof (rule mul)
    show "P (vals a ! (i * q + k))"
      using grid_index_less [OF ij(1) that] assms(5) by (intro a) simp
    show "P (vals b ! (k * r + j))"
      using grid_index_less [OF that ij(2)] assms(7) by (intro b) simp
  qed
  then have el: "\<And>u. u \<in> set (map (\<lambda>k. vals a ! (i * q + k) * vals b ! (k * r + j)) [0..<q]) \<Longrightarrow> P u"
    by auto
  show ?thesis unfolding w
  proof (rule lsum_closed [where P = P])
    show "\<And>u v. P u \<Longrightarrow> P v \<Longrightarrow> P (u + v)" by (rule add)
    show "P 0" by (rule zero)
    show "\<And>u. u \<in> set (map (\<lambda>k. vals a ! (i * q + k) * vals b ! (k * r + j)) [0..<q]) \<Longrightarrow> P u"
      by (rule el)
  qed
qed

lemma tadd_closed:
  assumes add: "\<And>u v. P u \<Longrightarrow> P v \<Longrightarrow> P (u + v)" and "vals b \<noteq> []"
    and a: "\<And>u. u \<in> set (vals a) \<Longrightarrow> P u" and b: "\<And>u. u \<in> set (vals b) \<Longrightarrow> P u"
    and "w \<in> set (vals (tadd a b))"
  shows "P w"
proof -
  obtain k where k: "k < length (vals a)" and w: "w = vals a ! k + vals b ! (k mod length (vals b))"
    using assms(5) by (auto simp: tadd_def)
  have "k mod length (vals b) < length (vals b)" using assms(2) by simp
  then show ?thesis unfolding w using k by (intro add) (simp_all add: a b)
qed

lemma smooth_closed:
  "smooth b \<theta> u \<Longrightarrow> smooth b \<theta> v \<Longrightarrow> smooth b \<theta> (u + v)"
  "smooth b \<theta> u \<Longrightarrow> smooth b \<theta> v \<Longrightarrow> smooth b \<theta> (u * v)"
  "smooth b \<theta> u \<Longrightarrow> smooth b \<theta> v \<Longrightarrow> smooth b \<theta> (u - v)"
  "smooth b \<theta> 0"
  by (simp_all add: plus_expr_def times_expr_def minus_expr_def zero_expr_def)

lemma indep_closed:
  "\<not> depends u b \<Longrightarrow> \<not> depends v b \<Longrightarrow> \<not> depends (u + v) b"
  "\<not> depends u b \<Longrightarrow> \<not> depends v b \<Longrightarrow> \<not> depends (u * v) b"
  "\<not> depends (0::expr) b"
  by (simp_all add: plus_expr_def times_expr_def zero_expr_def)

text \<open>Smooth and independent of variable \<open>b\<close> at once.\<close>

lemma const_closed:
  "smooth b \<theta> u \<and> \<not> depends u b \<Longrightarrow> smooth b \<theta> v \<and> \<not> depends v b
     \<Longrightarrow> smooth b \<theta> (u + v) \<and> \<not> depends (u + v) b"
  "smooth b \<theta> u \<and> \<not> depends u b \<Longrightarrow> smooth b \<theta> v \<and> \<not> depends v b
     \<Longrightarrow> smooth b \<theta> (u * v) \<and> \<not> depends (u * v) b"
  "smooth b \<theta> 0 \<and> \<not> depends 0 b"
  by (simp_all add: plus_expr_def times_expr_def zero_expr_def)

lemma var_tensor_entries:
  "u \<in> set (vals (var_tensor c s)) \<Longrightarrow> smooth b \<theta> u \<and> (c \<noteq> b \<longrightarrow> \<not> depends u b)"
  by (auto simp: var_tensor_def)

lemma const_tensor_entries:
  "u \<in> set (vals (tmap Const x)) \<Longrightarrow> smooth b \<theta> u \<and> \<not> depends u b"
  by (auto simp: tmap_def)

lemma activation_fn_tape: "activation_fn tape g = Relu"
  by (cases g) (simp add: tape_def)

lemma call_dense_vals:
  "vals (call tape (Dense units a W c) x)
   = (case a of None \<Rightarrow> vals (tadd (matmul x W) c)
      | Some g \<Rightarrow> map Relu (vals (tadd (matmul x W) c)))"
  by (cases a) (simp_all add: Let_def tmap_def activation_fn_tape)


lemma dense_entries_const:
  assumes "shape x = [N, m]" and "length (vals x) = N * m"
    and "shape W = [m, n]" and "length (vals W) = m * n" and "vals c \<noteq> []"
    and x: "\<And>u. u \<in> set (vals x) \<Longrightarrow> smooth b \<theta> u \<and> \<not> depends u b"
    and W: "\<And>u. u \<in> set (vals W) \<Longrightarrow> smooth b \<theta> u \<and> \<not> depends u b"
    and c: "\<And>u. u \<in> set (vals c) \<Longrightarrow> smooth b \<theta> u \<and> \<not> depends u b"
    and "w \<in> set (vals (call tape (Dense units a W c) x))"
  shows "smooth b \<theta> w \<and> \<not> depends w b"
proof -
  have mm: "smooth b \<theta> u \<and> \<not> depends u b" if "u \<in> set (vals (matmul x W))" for u
    by (rule matmul_closed [where P = "\<lambda>u. smooth b \<theta> u \<and> \<not> depends u b", OF _ _ _ assms(1-4) x W that])
       (auto simp: plus_expr_def times_expr_def zero_expr_def)
  have pre: "smooth b \<theta> u \<and> \<not> depends u b" if "u \<in> set (vals (tadd (matmul x W) c))" for u
    by (rule tadd_closed [where P = "\<lambda>u. smooth b \<theta> u \<and> \<not> depends u b", OF _ assms(5) mm c that])
       (auto simp: plus_expr_def times_expr_def zero_expr_def)
  show ?thesis
    using assms(9) pre unfolding call_dense_vals by (cases a) auto
qed

lemma dense_entries_smooth:
  assumes "shape x = [N, m]" and "length (vals x) = N * m"
    and "shape W = [m, n]" and "length (vals W) = m * n" and "vals c \<noteq> []"
    and x: "\<And>u. u \<in> set (vals x) \<Longrightarrow> smooth b \<theta> u"
    and W: "\<And>u. u \<in> set (vals W) \<Longrightarrow> smooth b \<theta> u"
    and c: "\<And>u. u \<in> set (vals c) \<Longrightarrow> smooth b \<theta> u"
    and nz: "\<And>u. a \<noteq> None \<Longrightarrow> u \<in> set (vals (tadd (matmul x W) c)) \<Longrightarrow> eval \<theta> u \<noteq> 0"
    and "w \<in> set (vals (call tape (Dense units a W c) x))"
  shows "smooth b \<theta> w"
proof -
  have mm: "smooth b \<theta> u" if "u \<in> set (vals (matmul x W))" for u
    by (rule matmul_closed [where P = "smooth b \<theta>", OF _ _ _ assms(1-4) x W that])
       (simp_all add: smooth_closed)
  have pre: "smooth b \<theta> u" if "u \<in> set (vals (tadd (matmul x W) c))" for u
    by (rule tadd_closed [where P = "smooth b \<theta>", OF _ assms(5) mm c that])
       (simp_all add: smooth_closed)
  show ?thesis
    using assms(10) pre nz unfolding call_dense_vals by (cases a) auto
qed

lemma lsum_real_nonneg: "(\<And>v. v \<in> set vs \<Longrightarrow> 0 \<le> (v::real)) \<Longrightarrow> 0 \<le> lsum vs"
  by (induction vs) (simp_all add: lsum_def)

lemma lsum_real_pos:
  assumes "\<And>v. v \<in> set vs \<Longrightarrow> 0 < (v::real)" and "vs \<noteq> []"
  shows "0 < lsum vs"
proof -
  obtain a ws where vs: "vs = a # ws" using assms(2) by (cases vs) auto
  have "0 \<le> lsum ws" by (rule lsum_real_nonneg) (use assms(1) vs in \<open>auto intro: less_imp_le\<close>)
  moreover have "0 < a" using assms(1) vs by simp
  moreover have "lsum vs = a + lsum ws" by (simp add: vs lsum_def)
  ultimately show ?thesis by simp
qed

lemma smooth_loss_object:
  assumes "shape z = [N, C]" and "length (vals z) = N * C" and "0 < C"
    and "\<And>s. s < N \<Longrightarrow> y ! s < C"
    and z: "\<And>u. u \<in> set (vals z) \<Longrightarrow> smooth b \<theta> u"
  shows "smooth b \<theta> (loss_object tape y z)"
proof -
  have zs: "smooth b \<theta> (vals z ! (s * C + c))" if "s < N" and "c < C" for s c
    using grid_index_less [OF that] assms(2) by (intro z) simp
  have S: "smooth b \<theta> (lsum (map (\<lambda>c. Exp (vals z ! (s * C + c))) [0..<C]))" if "s < N" for s
    by (rule lsum_closed [where P = "smooth b \<theta>"]) (auto simp: smooth_closed zs that)
  have pos: "0 < eval \<theta> (lsum (map (\<lambda>c. Exp (vals z ! (s * C + c))) [0..<C]))" for s
    unfolding eval_lsum by (rule lsum_real_pos) (use assms(3) in auto)
  have tm: "smooth b \<theta> (Log (lsum (map (\<lambda>c. Exp (vals z ! (s * C + c))) [0..<C]))
                         - vals z ! (s * C + y ! s))" if "s < N" for s
    using S [OF that] pos [of s] zs [OF that assms(4) [OF that]]
    by (simp add: minus_expr_def)
  have "smooth b \<theta> (lsum (map (\<lambda>s. Log (lsum (map (\<lambda>c. Exp (vals z ! (s * C + c))) [0..<C]))
                         - vals z ! (s * C + y ! s)) [0..<N]))"
    by (rule lsum_closed [where P = "smooth b \<theta>"]) (auto simp: smooth_closed tm)
  then show ?thesis
    using assms(1) by (simp add: loss_object_def Let_def tape_def divide_expr_def)
qed

section \<open>The second derivatives computed by T2_compute\<close>

lemma eval_var_tensor:
  assumes "trainable_variables m ! b = w" and "wf_tensor w"
  shows "tmap (eval (variable_values m)) (var_tensor b (shape w)) = w"
proof -
  have "map (eval (variable_values m)) (map (Var b) [0..<prod_list (shape w)])
        = map ((!) (vals w)) [0..<length (vals w)]"
    using assms by (simp add: variable_values_def wf_tensor_def)
  then show ?thesis by (simp add: tmap_def var_tensor_def map_nth)
qed

lemma trainable_variables_model:
  "trainable_variables (model k1 b1 k2 b2 k3 b3) = [k1, b1, k2, b2, k3, b3]"
  by (simp add: trainable_variables_def model_def)

lemma with_values_model:
  assumes "wf_tensor k1" and "wf_tensor b1" and "wf_tensor k2" and "wf_tensor b2"
    and "wf_tensor k3" and "wf_tensor b3"
  shows "with_values (model k1 b1 k2 b2 k3 b3) (variable_values (model k1 b1 k2 b2 k3 b3))
         = model k1 b1 k2 b2 k3 b3"
  using eval_var_tensor [of "model k1 b1 k2 b2 k3 b3" 0 k1]
    eval_var_tensor [of "model k1 b1 k2 b2 k3 b3" 1 b1]
    eval_var_tensor [of "model k1 b1 k2 b2 k3 b3" 2 k2]
    eval_var_tensor [of "model k1 b1 k2 b2 k3 b3" 3 b2]
    eval_var_tensor [of "model k1 b1 k2 b2 k3 b3" 4 k3]
    eval_var_tensor [of "model k1 b1 k2 b2 k3 b3" 5 b3] assms
  by (simp add: with_values_def watch_model trainable_variables_model) (simp add: model_def)

text \<open>
  The recorded pre-activations of the second hidden layer, and their values at the
  trained weights.
\<close>

lemma smooth_loss_model:
  assumes "shape k1 = [d, 16]" and "shape b1 = [16]" and "shape k2 = [16, 16]"
    and "shape b2 = [16]" and "shape k3 = [16, 10]" and "shape b3 = [10]"
    and "shape x = N # rest" and "prod_list rest = d" and "length (vals x) = N * d"
    and "\<And>s. s < N \<Longrightarrow> y ! s < 10"
    and nz: "\<And>u. u \<in> set (vals (tadd (matmul
                 (call tape (Dense 16 (Some ReLU) (var_tensor 0 [d, 16]) (var_tensor 1 [16]))
                    (call tape Flatten (tmap Const x)))
                 (var_tensor 2 [16, 16])) (var_tensor 3 [16]))) \<Longrightarrow> eval \<theta> u \<noteq> 0"
  shows "smooth 2 \<theta> (loss tape (watch (model k1 b1 k2 b2 k3 b3)) (tmap Const x) y)"
proof -
  let ?V0 = "var_tensor 0 [d, 16]" and ?V1 = "var_tensor 1 [16]" and ?V2 = "var_tensor 2 [16, 16]"
    and ?V3 = "var_tensor 3 [16]" and ?V4 = "var_tensor 4 [16, 10]" and ?V5 = "var_tensor 5 [10]"
  let ?f0 = "call tape Flatten (tmap Const x)"
  let ?h1 = "call tape (Dense 16 (Some ReLU) ?V0 ?V1) ?f0"
  let ?h2 = "call tape (Dense 16 (Some ReLU) ?V2 ?V3) ?h1"
  let ?z = "call tape (Dense 10 None ?V4 ?V5) ?h2"
  have f0: "shape ?f0 = [N, d]" "length (vals ?f0) = N * d"
    using assms(7,8,9) by (simp_all add: reshape_def tmap_def)
  have h1: "shape ?h1 = [N, 16]" "length (vals ?h1) = N * 16"
    using call_dense_shape [OF _ f0(1), of ?V0 16] call_dense_length [OF _ f0(1), of ?V0 16]
    by (simp_all add: var_tensor_simps del: call.simps)
  have h2: "shape ?h2 = [N, 16]" "length (vals ?h2) = N * 16"
    using call_dense_shape [OF _ h1(1), of ?V2 16] call_dense_length [OF _ h1(1), of ?V2 16]
    by (simp_all add: var_tensor_simps del: call.simps)
  have z: "shape ?z = [N, 10]" "length (vals ?z) = N * 10"
    using call_dense_shape [OF _ h2(1), of ?V4 10] call_dense_length [OF _ h2(1), of ?V4 10]
    by (simp_all add: var_tensor_simps del: call.simps)
  have f0s: "smooth 2 \<theta> u \<and> \<not> depends u 2" if "u \<in> set (vals ?f0)" for u
    using that const_tensor_entries [of u x 2 \<theta>] by (simp add: reshape_def)
  have h1s: "smooth 2 \<theta> u \<and> \<not> depends u 2" if "u \<in> set (vals ?h1)" for u
    by (rule dense_entries_const [OF f0 _ _ _ f0s _ _ that, where n = 16])
       (use var_tensor_entries [of _ 0 "[d, 16]" 2 \<theta>] var_tensor_entries [of _ 1 "[16]" 2 \<theta>]
         in \<open>auto simp: var_tensor_simps var_tensor_ne\<close>)
  have h2s: "smooth 2 \<theta> u" if "u \<in> set (vals ?h2)" for u
    by (rule dense_entries_smooth [OF h1 _ _ _ _ _ _ _ that, where n = 16])
       (use h1s nz var_tensor_entries [of _ 2 "[16, 16]" 2 \<theta>] var_tensor_entries [of _ 3 "[16]" 2 \<theta>]
         in \<open>auto simp: var_tensor_simps var_tensor_ne\<close>)
  have zs: "smooth 2 \<theta> u" if "u \<in> set (vals ?z)" for u
    by (rule dense_entries_smooth [OF h2 _ _ _ _ _ _ _ that, where n = 10])
       (use h2s var_tensor_entries [of _ 4 "[16, 10]" 2 \<theta>] var_tensor_entries [of _ 5 "[10]" 2 \<theta>]
         in \<open>auto simp: var_tensor_simps var_tensor_ne\<close>)
  have seq: "sequential tape (watch (model k1 b1 k2 b2 k3 b3)) (tmap Const x) = ?z"
    by (simp add: sequential_def watch_model assms(1-6) del: call.simps)
  show ?thesis
    unfolding loss_def Let_def seq
    by (rule smooth_loss_object [OF z _ assms(10) zs]) simp_all
qed


lemma preactivation_values:
  assumes "shape k1 = [d, 16]" and "shape b1 = [16]" and "shape k2 = [16, 16]" and "shape b2 = [16]"
    and "wf_tensor k1" and "wf_tensor b1" and "wf_tensor k2" and "wf_tensor b2"
    and "shape x = N # rest" and "prod_list rest = d" and "length (vals x) = N * d"
  shows "tmap (eval (variable_values (model k1 b1 k2 b2 k3 b3)))
           (tadd (matmul
                 (call tape (Dense 16 (Some ReLU) (var_tensor 0 [d, 16]) (var_tensor 1 [16]))
                    (call tape Flatten (tmap Const x)))
                 (var_tensor 2 [16, 16])) (var_tensor 3 [16]))
         = tadd (matmul (call numeric (Dense 16 (Some ReLU) k1 b1) (call numeric Flatten x)) k2) b2"
proof -
  let ?\<theta> = "variable_values (model k1 b1 k2 b2 k3 b3)"
  let ?V0 = "var_tensor 0 [d, 16]" and ?V1 = "var_tensor 1 [16]" and ?V2 = "var_tensor 2 [16, 16]"
    and ?V3 = "var_tensor 3 [16]"
  let ?f0 = "call tape Flatten (tmap Const x)"
  let ?h1 = "call tape (Dense 16 (Some ReLU) ?V0 ?V1) ?f0"
  have v: "tmap (eval ?\<theta>) ?V0 = k1" "tmap (eval ?\<theta>) ?V1 = b1" "tmap (eval ?\<theta>) ?V2 = k2"
    "tmap (eval ?\<theta>) ?V3 = b2"
    using eval_var_tensor [of "model k1 b1 k2 b2 k3 b3" 0 k1]
      eval_var_tensor [of "model k1 b1 k2 b2 k3 b3" 1 b1]
      eval_var_tensor [of "model k1 b1 k2 b2 k3 b3" 2 k2]
      eval_var_tensor [of "model k1 b1 k2 b2 k3 b3" 3 b2] assms(1-8)
    by (simp_all add: trainable_variables_model)
  have f0: "shape ?f0 = [N, d]" "length (vals ?f0) = N * d"
    using assms(9,10,11) by (simp_all add: reshape_def tmap_def)
  have h1: "shape ?h1 = [N, 16]" "length (vals ?h1) = N * 16"
    using call_dense_shape [OF _ f0(1), of ?V0 16] call_dense_length [OF _ f0(1), of ?V0 16]
    by (simp_all add: var_tensor_simps del: call.simps)
  have e0: "tmap (eval ?\<theta>) ?f0 = call numeric Flatten x"
    by (simp add: eval_call_flatten tmap_eval_Const del: call.simps)
  have e1: "tmap (eval ?\<theta>) ?h1 = call numeric (Dense 16 (Some ReLU) k1 b1) (call numeric Flatten x)"
    by (subst eval_call_dense [OF f0, where n = 16])
       (simp_all add: var_tensor_simps var_tensor_ne e0 v v [unfolded One_nat_def] del: call.simps)
  have "tmap (eval ?\<theta>) (tadd (matmul ?h1 ?V2) ?V3)
        = tadd (tmap (eval ?\<theta>) (matmul ?h1 ?V2)) (tmap (eval ?\<theta>) ?V3)"
    by (rule eval_tadd) (simp add: var_tensor_ne)
  also have "tmap (eval ?\<theta>) (matmul ?h1 ?V2) = matmul (tmap (eval ?\<theta>) ?h1) (tmap (eval ?\<theta>) ?V2)"
    by (rule eval_matmul [OF h1, where r = 16]) (simp_all add: var_tensor_simps)
  finally show ?thesis by (simp only: e1 v)
qed

lemma T2_compute_entry:
  assumes "shape k2 = [16, 16]" and "p < 256" and "q < 256"
  shows "\<exists>T. T2_compute (model k1 b1 k2 b2 k3 b3) x y (- 4) = Inr T \<and> shape T = [16, 16, 16, 16] \<and>
           vals T ! (p * 256 + q) =
             eval (variable_values (model k1 b1 k2 b2 k3 b3))
               (diff (Var 2 q) (diff (Var 2 p)
                  (loss tape (watch (model k1 b1 k2 b2 k3 b3)) (tmap Const x) y)))"
proof -
  let ?L = "loss tape (watch (model k1 b1 k2 b2 k3 b3)) (tmap Const x) y"
  let ?v = "var_tensor 2 [16, 16]"
  let ?J = "jacobian (gradient ?L ?v) ?v"
  have lv: "length (vals ?v) = 256" by (simp add: var_tensor_simps)
  have pq: "p * 256 + q < 256 * 256" using assms(2,3) by (rule grid_index_less)
  have len: "length (vals ?J) = 256 * 256" by (simp add: jacobian_length gradient_simps lv)
  have "vals ?J ! (p * length (vals ?v) + q) = diff (vals ?v ! q) (vals (gradient ?L ?v) ! p)"
    by (rule jacobian_nth) (simp_all add: gradient_simps lv assms)
  then have e: "vals ?J ! (p * 256 + q) = diff (Var 2 q) (diff (Var 2 p) ?L)"
    using assms(2,3) by (simp add: lv gradient_simps var_tensor_simps)
  show ?thesis
    unfolding T2_compute_model assms(1)
    using e pq len
    by (simp add: tmap_def jacobian_shape gradient_simps var_tensor_simps)
qed


lemma has_partials_inner:
  assumes "has_partials (q # ps) F b \<theta> D"
  shows "\<exists>D'. has_partials ps F b \<theta> D'"
proof -
  obtain G where ev: "eventually (\<lambda>t. has_partials ps F b (shift \<theta> b q t) (G t)) (nhds 0)"
    using assms by auto
  have "has_partials ps F b (shift \<theta> b q 0) (G 0)"
    using eventually_nhds_x_imp_x [OF ev] .
  then show ?thesis unfolding shift_zero by blast
qed

lemma has_partials_single:
  assumes "has_partials [q] F b \<theta> D"
  shows "((\<lambda>t. F (shift \<theta> b q t)) has_real_derivative D) (at 0)"
proof -
  obtain G where ev: "eventually (\<lambda>t. F (shift \<theta> b q t) = G t) (nhds 0)"
    and d: "(G has_real_derivative D) (at 0)"
    using assms by auto
  show ?thesis using DERIV_cong_ev [OF refl ev refl] d by simp
qed

lemma kink_not_differentiable:
  "\<not> ((\<lambda>t. ln (exp (relu t) + 9) - relu t) has_real_derivative D) (at 0)"
proof
  let ?f = "\<lambda>t::real. ln (exp (relu t) + 9) - relu t"
  let ?g = "\<lambda>t::real. ln (exp t + 9) - t"
  assume "(?f has_real_derivative D) (at 0)"
  then have lim: "((\<lambda>y. (?f y - ?f 0) / (y - 0)) \<longlongrightarrow> D) (at 0)"
    by (simp only: has_field_derivative_iff)
  have "(?g has_real_derivative (1 / (exp 0 + 9) * exp 0 - 1)) (at 0)"
    by (auto intro!: derivative_eq_intros simp: add_pos_pos)
  then have limg: "((\<lambda>y. (?g y - ?g 0) / (y - 0)) \<longlongrightarrow> - 9 / 10) (at 0)"
    by (simp add: has_field_derivative_iff)
  have r1: "((\<lambda>y. (?f y - ?f 0) / (y - 0)) \<longlongrightarrow> D) (at_right 0)"
    using lim by (rule tendsto_mono [OF at_le, rotated]) simp
  have r2: "((\<lambda>y. (?g y - ?g 0) / (y - 0)) \<longlongrightarrow> - 9 / 10) (at_right 0)"
    using limg by (rule tendsto_mono [OF at_le, rotated]) simp
  have er: "eventually (\<lambda>y. (?f y - ?f 0) / (y - 0) = (?g y - ?g 0) / (y - 0)) (at_right 0)"
    using eventually_at_right_less [of "0::real"] by eventually_elim (simp add: relu_def)
  have "((\<lambda>y. (?g y - ?g 0) / (y - 0)) \<longlongrightarrow> D) (at_right 0)"
    using r1 er by (rule Lim_transform_eventually)
  then have D1: "D = - 9 / 10" using r2 by (intro tendsto_unique [OF _ _ r2]) simp_all
  have l1: "((\<lambda>y. (?f y - ?f 0) / (y - 0)) \<longlongrightarrow> D) (at_left 0)"
    using lim by (rule tendsto_mono [OF at_le, rotated]) simp
  have el: "eventually (\<lambda>y. (?f y - ?f 0) / (y - 0) = 0) (at_left 0)"
    by (simp add: eventually_at_filter relu_def)
  have "((\<lambda>y::real. 0::real) \<longlongrightarrow> D) (at_left 0)"
    using l1 el by (rule Lim_transform_eventually)
  then have "D = 0" by (intro tendsto_unique [OF _ _ tendsto_const]) simp_all
  then show False using D1 by simp
qed

lemma eval_shift_var_tensor:
  assumes "trainable_variables m ! b = w" and "wf_tensor w"
  shows "tmap (eval (shift (variable_values m) c q t)) (var_tensor b (shape w))
         = (if b = c \<and> q < length (vals w)
            then \<lparr>shape = shape w, vals = (vals w)[q := vals w ! q + t]\<rparr> else w)"
proof -
  have len: "prod_list (shape w) = length (vals w)" using assms(2) by (simp add: wf_tensor_def)
  have "map (eval (shift (variable_values m) c q t)) (map (Var b) [0..<length (vals w)])
        = (if b = c \<and> q < length (vals w) then (vals w)[q := vals w ! q + t] else vals w)"
    using assms(1) by (intro nth_equalityI) (auto simp: shift_def variable_values_def nth_list_update)
  then show ?thesis by (simp add: tmap_def var_tensor_def len)
qed

lemma with_values_shift:
  assumes "wf_tensor k1" and "wf_tensor b1" and "wf_tensor k2" and "wf_tensor b2"
    and "wf_tensor k3" and "wf_tensor b3" and "q < length (vals k2)"
  shows "with_values (model k1 b1 k2 b2 k3 b3) (shift (variable_values (model k1 b1 k2 b2 k3 b3)) 2 q t)
         = model k1 b1 \<lparr>shape = shape k2, vals = (vals k2)[q := vals k2 ! q + t]\<rparr> b2 k3 b3"
  using eval_shift_var_tensor [of "model k1 b1 k2 b2 k3 b3" 0 k1 2 q t]
    eval_shift_var_tensor [of "model k1 b1 k2 b2 k3 b3" 1 b1 2 q t]
    eval_shift_var_tensor [of "model k1 b1 k2 b2 k3 b3" 2 k2 2 q t]
    eval_shift_var_tensor [of "model k1 b1 k2 b2 k3 b3" 3 b2 2 q t]
    eval_shift_var_tensor [of "model k1 b1 k2 b2 k3 b3" 4 k3 2 q t]
    eval_shift_var_tensor [of "model k1 b1 k2 b2 k3 b3" 5 b3 2 q t] assms
  by (simp add: with_values_def watch_model trainable_variables_model) (simp add: model_def)

lemma dense_first_input:
  assumes "shape W = [m, n]" and "shape b = [n]" and "length (vals b) = n"
    and "shape x = [1, m]" and "0 < m" and "\<And>i. 0 < i \<Longrightarrow> i < m \<Longrightarrow> vals x ! i = 0"
  shows "call numeric (Dense u a W b) x
         = \<lparr>shape = [1, n],
            vals = map (\<lambda>j. (case a of None \<Rightarrow> (\<lambda>z. z) | Some g \<Rightarrow> activation_fn numeric g)
                              (vals x ! 0 * vals W ! j + vals b ! j)) [0..<n]\<rparr>"
    (is "?l = ?r")
proof (rule tensor.equality)
  show "shape ?l = shape ?r" using call_dense_shape [OF assms(1,4)] by simp
  show "vals ?l = vals ?r"
  proof (rule nth_equalityI)
    show "length (vals ?l) = length (vals ?r)"
      using call_dense_length [OF assms(1,4)] by simp
  next
    fix j assume "j < length (vals ?l)"
    then have j: "j < n" using call_dense_length [OF assms(1,4)] by simp
    have "(\<Sum>i<m. vals x ! (0 * m + i) * vals W ! (i * n + j))
          = (\<Sum>i<m. if i = 0 then vals x ! 0 * vals W ! j else 0)"
      by (rule sum.cong) (simp_all add: assms(6))
    also have "\<dots> = vals x ! 0 * vals W ! j" using assms(5) by (simp add: sum.delta')
    finally show "vals ?l ! j = vals ?r ! j"
      using call_dense_nth [OF assms(1,2,3,4) _ j, of 0 u a] j by (simp del: call.simps)
  qed
qed simp

lemma sum_exp_first: "(\<Sum>c<10. exp (if c = (0::nat) then a else (0::real))) = exp a + 9"
proof -
  have "(\<Sum>c<10. exp (if c = (0::nat) then a else (0::real)))
        = (\<Sum>c<10::nat. if c = 0 then exp a - 1 else 0) + (\<Sum>c<10::nat. 1)"
    unfolding sum.distrib [symmetric] by (rule sum.cong) auto
  then show ?thesis by (simp add: sum.delta')
qed

lemma kink_loss:
  "loss numeric (model (zeros [784, 16]) \<lparr>shape = [16], vals = 1 # replicate 15 0\<rparr>
                   \<lparr>shape = [16, 16], vals = (replicate 256 0)[0 := t]\<rparr> (zeros [16])
                   \<lparr>shape = [16, 10], vals = 1 # replicate 159 0\<rparr> (zeros [10]))
        (zeros [1, 28, 28, 1]) [0]
   = ln (exp (relu t) + 9) - relu t"
proof -
  let ?B1 = "\<lparr>shape = [16], vals = (1::real) # replicate 15 0\<rparr>"
  let ?K2 = "\<lparr>shape = [16, 16], vals = (replicate 256 (0::real))[0 := t]\<rparr>"
  let ?K3 = "\<lparr>shape = [16, 10], vals = (1::real) # replicate 159 0\<rparr>"
  let ?X0 = "zeros [1, 28, 28, 1] :: real tensor"
  let ?L1 = "Dense 16 (Some ReLU) (zeros [784, 16]) ?B1"
  let ?L2 = "Dense 16 (Some ReLU) ?K2 (zeros [16])"
  let ?L3 = "Dense 10 None ?K3 (zeros [10])"
  let ?h1 = "\<lparr>shape = [1, 16], vals = (1::real) # replicate 15 0\<rparr>"
  let ?h2 = "\<lparr>shape = [1, 16], vals = map (\<lambda>j. if j = 0 then relu t else 0) [0..<16]\<rparr>"
  let ?z = "\<lparr>shape = [1, 10], vals = map (\<lambda>j. if j = 0 then relu t else 0) [0..<10]\<rparr>"
  have flat: "call numeric Flatten ?X0 = \<lparr>shape = [1, 784], vals = replicate 784 0\<rparr>"
    by (simp add: zeros_def reshape_def)
  have h1: "call numeric ?L1 \<lparr>shape = [1, 784], vals = replicate 784 0\<rparr> = ?h1"
    by (subst dense_zero_input [where m = 784 and n = 16]) (simp_all add: zeros_def numeric_def relu_def)
  have h2: "call numeric ?L2 ?h1 = ?h2"
  proof -
    have "call numeric ?L2 ?h1 = \<lparr>shape = [1, 16],
            vals = map (\<lambda>j. (case Some ReLU of None \<Rightarrow> (\<lambda>z. z) | Some g \<Rightarrow> activation_fn numeric g)
                              (vals ?h1 ! 0 * vals ?K2 ! j + vals (zeros [16] :: real tensor) ! j)) [0..<16]\<rparr>"
      by (rule dense_first_input [where m = 16]) (simp_all add: zeros_def nth_Cons')
    also have "map (\<lambda>j. (case Some ReLU of None \<Rightarrow> (\<lambda>z. z) | Some g \<Rightarrow> activation_fn numeric g)
                              (vals ?h1 ! 0 * vals ?K2 ! j + vals (zeros [16] :: real tensor) ! j)) [0..<16]
               = map (\<lambda>j. if j = 0 then relu t else 0) [0..<16]"
      by (rule map_cong) (auto simp: zeros_def numeric_def relu_def nth_list_update)
    finally show ?thesis .
  qed
  have out: "call numeric ?L3 ?h2 = ?z"
  proof -
    have "call numeric ?L3 ?h2 = \<lparr>shape = [1, 10],
            vals = map (\<lambda>j. (case None :: activation option of None \<Rightarrow> (\<lambda>z. z) | Some g \<Rightarrow> activation_fn numeric g)
                              (vals ?h2 ! 0 * vals ?K3 ! j + vals (zeros [10] :: real tensor) ! j)) [0..<10]\<rparr>"
      by (rule dense_first_input [where m = 16]) (simp_all add: zeros_def)
    also have "map (\<lambda>j. (case None :: activation option of None \<Rightarrow> (\<lambda>z. z) | Some g \<Rightarrow> activation_fn numeric g)
                              (vals ?h2 ! 0 * vals ?K3 ! j + vals (zeros [10] :: real tensor) ! j)) [0..<10]
               = map (\<lambda>j. if j = 0 then relu t else 0) [0..<10]"
      by (rule map_cong) (auto simp: zeros_def nth_Cons')
    finally show ?thesis .
  qed
  have seq: "sequential numeric (model (zeros [784, 16]) ?B1 ?K2 (zeros [16]) ?K3 (zeros [10])) ?X0 = ?z"
    unfolding sequential_def model_def fold_simps comp_def flat h1 h2 out id_def ..
  have s: "(\<Sum>c<10. exp (vals ?z ! c)) = exp (relu t) + 9"
  proof -
    have "(\<Sum>c<10. exp (vals ?z ! c)) = (\<Sum>c<10. exp (if c = (0::nat) then relu t else 0))"
      by (rule sum.cong) simp_all
    then show ?thesis by (simp only: sum_exp_first)
  qed
  show ?thesis
    unfolding loss_def Let_def seq by (subst loss_single_example) (simp_all only: s, simp_all)
qed

text \<open>
  Claim C3, with the condition under which it holds. \<open>T2_compute\<close> with block index
  \<open>-4\<close> differentiates with respect to the kernel \<open>W\<close> of the second hidden Dense
  layer (variable 2 of the six, of shape \<open>16 x 16\<close>, entry \<open>[i,j]\<close> at position
  \<open>i * 16 + j\<close>) and returns a tensor \<open>T\<close> of shape \<open>[16,16,16,16]\<close>; after the
  reshape, \<open>H[i*16+j, k*16+l]\<close> is \<open>T[i,j,k,l]\<close>. That entry is the recorded loss
  differentiated with respect to \<open>W[i,j]\<close> and then \<open>W[k,l]\<close> by the chain rule of the
  tape, at the trained weights, and the recorded loss evaluates to the loss of the model
  at any values of the variables. When no pre-activation of the second hidden layer is
  exactly zero, the entry is the mixed second partial derivative of the loss with respect
  to \<open>W[i,j]\<close> and \<open>W[k,l]\<close>.
\<close>

theorem T2_compute_second_derivative:
  assumes "trained d k1 b1 k2 b2 k3 b3"
    and "shape x = N # rest" and "prod_list rest = d" and "wf_tensor x"
    and "\<forall>s<N. y ! s < 10"
    and "i < 16" and "j < 16" and "k < 16" and "l < 16"
  shows "\<exists>T H. T2_compute (model k1 b1 k2 b2 k3 b3) x y (- 4) = Inr T \<and>
           shape T = [16, 16, 16, 16] \<and>
           hessian (model k1 b1 k2 b2 k3 b3) x y = Inr H \<and> shape H = [256, 256] \<and>
           py_get (trainable_variables (model k1 b1 k2 b2 k3 b3)) (- 4) = Inr k2 \<and>
           variable_values (model k1 b1 k2 b2 k3 b3) 2 (i * 16 + j) = tget k2 [i, j] \<and>
           with_values (model k1 b1 k2 b2 k3 b3) (variable_values (model k1 b1 k2 b2 k3 b3))
             = model k1 b1 k2 b2 k3 b3 \<and>
           (\<forall>\<theta>. eval \<theta> (loss tape (watch (model k1 b1 k2 b2 k3 b3)) (tmap Const x) y)
                 = loss numeric (with_values (model k1 b1 k2 b2 k3 b3) \<theta>) x y) \<and>
           tget H [i * 16 + j, k * 16 + l] = tget T [i, j, k, l] \<and>
           tget T [i, j, k, l]
             = eval (variable_values (model k1 b1 k2 b2 k3 b3))
                 (iterated_diff 2 [k * 16 + l, i * 16 + j]
                    (loss tape (watch (model k1 b1 k2 b2 k3 b3)) (tmap Const x) y)) \<and>
           (0 \<notin> set (vals (tadd (matmul (call numeric (Dense 16 (Some ReLU) k1 b1)
                                        (call numeric Flatten x)) k2) b2)) \<longrightarrow>
            has_partials [k * 16 + l, i * 16 + j]
              (\<lambda>\<theta>. loss numeric (with_values (model k1 b1 k2 b2 k3 b3) \<theta>) x y) 2
              (variable_values (model k1 b1 k2 b2 k3 b3)) (tget T [i, j, k, l]))"
proof -
  let ?m = "model k1 b1 k2 b2 k3 b3"
  let ?\<theta> = "variable_values ?m"
  let ?L = "loss tape (watch ?m) (tmap Const x) y"
  let ?p = "i * 16 + j" and ?q = "k * 16 + l"
  let ?Z = "tadd (matmul (call numeric (Dense 16 (Some ReLU) k1 b1) (call numeric Flatten x)) k2) b2"
  have sh: "shape k1 = [d, 16]" "shape b1 = [16]" "shape k2 = [16, 16]" "shape b2 = [16]"
    "shape k3 = [16, 10]" "shape b3 = [10]"
    and wf: "wf_tensor k1" "wf_tensor b1" "wf_tensor k2" "wf_tensor b2" "wf_tensor k3" "wf_tensor b3"
    using assms(1) by (simp_all add: trained_def)
  have lx: "length (vals x) = N * d" using assms(2,3,4) by (simp add: wf_tensor_def)
  have lab: "\<And>s. s < N \<Longrightarrow> y ! s < 10" using assms(5) by simp
  have p: "?p < 256" and q: "?q < 256"
    using grid_index_less [OF assms(6,7)] grid_index_less [OF assms(8,9)] by simp_all
  obtain T where T: "T2_compute ?m x y (- 4) = Inr T" "shape T = [16, 16, 16, 16]"
    "vals T ! (?p * 256 + ?q) = eval ?\<theta> (diff (Var 2 ?q) (diff (Var 2 ?p) ?L))"
    using T2_compute_entry [OF sh(3) p q, of k1 b1 b2 k3 b3 x y] by blast
  obtain H where H: "hessian ?m x y = Inr H" "shape H = [256, 256]"
    "tget H [?p, ?q] = eval ?\<theta> (diff (Var 2 ?q) (diff (Var 2 ?p) ?L))"
    using hessian_entry [OF sh(3) p q, of k1 b1 b2 k3 b3 x y] by blast
  have tg: "tget T [i, j, k, l] = eval ?\<theta> (iterated_diff 2 [?q, ?p] ?L)"
    using T(3) by (simp add: tget_def T(2) algebra_simps)
  have hg: "tget H [?p, ?q] = tget T [i, j, k, l]" using H(3) tg by simp
  have F: "eval \<theta> ?L = loss numeric (with_values ?m \<theta>) x y" for \<theta>
    by (rule eval_loss_model [OF sh assms(2,3) lx lab])
  have hp: "has_partials [?q, ?p] (\<lambda>\<theta>. loss numeric (with_values ?m \<theta>) x y) 2 ?\<theta> (tget T [i, j, k, l])"
    if z: "0 \<notin> set (vals ?Z)"
  proof -
    have nz: "eval ?\<theta> u \<noteq> 0"
      if "u \<in> set (vals (tadd (matmul
                   (call tape (Dense 16 (Some ReLU) (var_tensor 0 [d, 16]) (var_tensor 1 [16]))
                      (call tape Flatten (tmap Const x)))
                   (var_tensor 2 [16, 16])) (var_tensor 3 [16])))" for u
    proof -
      have "eval ?\<theta> u \<in> set (vals (tmap (eval ?\<theta>) (tadd (matmul
                   (call tape (Dense 16 (Some ReLU) (var_tensor 0 [d, 16]) (var_tensor 1 [16]))
                      (call tape Flatten (tmap Const x)))
                   (var_tensor 2 [16, 16])) (var_tensor 3 [16]))))"
        using that by (simp add: tmap_def del: call.simps)
      then show ?thesis
        unfolding preactivation_values [OF sh(1-4) wf(1-4) assms(2,3) lx] using z by metis
    qed
    have sm: "smooth 2 ?\<theta> ?L"
      by (rule smooth_loss_model [OF sh assms(2,3) lx lab nz])
    have "(\<lambda>\<theta>. eval \<theta> ?L) = (\<lambda>\<theta>. loss numeric (with_values ?m \<theta>) x y)"
      by (rule ext) (rule F)
    then show ?thesis using diffs_sound [OF sm, of "[?q, ?p]"] unfolding tg by simp
  qed
  have pg: "py_get (trainable_variables ?m) (- 4) = Inr k2"
    by (simp add: trainable_variables_model py_get_def)
  have vv: "?\<theta> 2 ?p = tget k2 [i, j]"
    by (simp add: variable_values_def trainable_variables_model tget_def sh)
  show ?thesis
    apply (rule exI [of _ T])
    apply (rule exI [of _ H])
    apply (intro conjI T(1,2) H(1,2) pg vv with_values_model [OF wf] hg tg allI F impI hp)
    apply assumption
    done
qed

lemma first_unit_preactivation:
  "tadd (matmul (call numeric (Dense 16 (Some ReLU) (zeros [784, 16]) \<lparr>shape = [16], vals = 1 # replicate 15 0\<rparr>)
                   (call numeric Flatten (zeros [1, 28, 28, 1])))
                (zeros [16, 16])) \<lparr>shape = [16], vals = replicate 16 c\<rparr>
   = \<lparr>shape = [1, 16], vals = replicate 16 (c::real)\<rparr>"
proof -
  let ?h1 = "\<lparr>shape = [1, 16], vals = (1::real) # replicate 15 0\<rparr>"
  let ?b2 = "\<lparr>shape = [16], vals = replicate 16 c\<rparr>"
  have flat: "call numeric Flatten (zeros [1, 28, 28, 1] :: real tensor)
              = \<lparr>shape = [1, 784], vals = replicate 784 0\<rparr>"
    by (simp add: zeros_def reshape_def)
  have h1: "call numeric (Dense 16 (Some ReLU) (zeros [784, 16]) \<lparr>shape = [16], vals = (1::real) # replicate 15 0\<rparr>)
              \<lparr>shape = [1, 784], vals = replicate 784 0\<rparr> = ?h1"
    by (subst dense_zero_input [where m = 784 and n = 16]) (simp_all add: zeros_def numeric_def relu_def)
  have "call numeric (Dense 16 None (zeros [16, 16]) ?b2) ?h1
        = \<lparr>shape = [1, 16], vals = map (\<lambda>j. (case None :: activation option of None \<Rightarrow> (\<lambda>z. z) | Some g \<Rightarrow> activation_fn numeric g)
                              (vals ?h1 ! 0 * vals (zeros [16, 16] :: real tensor) ! j + vals ?b2 ! j)) [0..<16]\<rparr>"
    by (rule dense_first_input [where m = 16]) (simp_all add: zeros_def nth_Cons')
  also have "map (\<lambda>j. (case None :: activation option of None \<Rightarrow> (\<lambda>z. z) | Some g \<Rightarrow> activation_fn numeric g)
                              (vals ?h1 ! 0 * vals (zeros [16, 16] :: real tensor) ! j + vals ?b2 ! j)) [0..<16]
             = map (\<lambda>j. c) [0..<16]"
    by (rule map_cong) (auto simp: zeros_def)
  finally have "call numeric (Dense 16 None (zeros [16, 16]) ?b2) ?h1
        = \<lparr>shape = [1, 16], vals = replicate 16 c\<rparr>"
    by (simp add: map_replicate_const)
  then show ?thesis unfolding flat h1 by (simp add: Let_def)
qed

theorem T2_compute_second_derivative_witness:
  "trained 784 (zeros [784, 16]) \<lparr>shape = [16], vals = 1 # replicate 15 0\<rparr> (zeros [16, 16])
     \<lparr>shape = [16], vals = replicate 16 (1::real)\<rparr>
     \<lparr>shape = [16, 10], vals = 1 # replicate 159 0\<rparr> (zeros [10]) \<and>
   wf_tensor (zeros [1, 28, 28, 1] :: real tensor) \<and>
   0 \<notin> set (vals (tadd (matmul (call numeric (Dense 16 (Some ReLU) (zeros [784, 16])
                                          \<lparr>shape = [16], vals = 1 # replicate 15 0\<rparr>)
                                        (call numeric Flatten (zeros [1, 28, 28, 1]))) (zeros [16, 16]))
                         \<lparr>shape = [16], vals = replicate 16 (1::real)\<rparr>)) \<and>
   (\<exists>T H. T2_compute (model (zeros [784, 16]) \<lparr>shape = [16], vals = 1 # replicate 15 0\<rparr> (zeros [16, 16])
                        \<lparr>shape = [16], vals = replicate 16 1\<rparr>
                        \<lparr>shape = [16, 10], vals = 1 # replicate 159 0\<rparr> (zeros [10]))
             (zeros [1, 28, 28, 1]) [0] (- 4) = Inr T \<and>
          shape T = [16, 16, 16, 16] \<and>
          hessian (model (zeros [784, 16]) \<lparr>shape = [16], vals = 1 # replicate 15 0\<rparr> (zeros [16, 16])
                        \<lparr>shape = [16], vals = replicate 16 1\<rparr>
                        \<lparr>shape = [16, 10], vals = 1 # replicate 159 0\<rparr> (zeros [10]))
             (zeros [1, 28, 28, 1]) [0] = Inr H \<and> shape H = [256, 256] \<and>
          tget H [0 * 16 + 0, 0 * 16 + 0] = tget T [0, 0, 0, 0] \<and>
          has_partials [0 * 16 + 0, 0 * 16 + 0]
            (\<lambda>\<theta>. loss numeric (with_values (model (zeros [784, 16]) \<lparr>shape = [16], vals = 1 # replicate 15 0\<rparr> (zeros [16, 16])
                        \<lparr>shape = [16], vals = replicate 16 1\<rparr>
                        \<lparr>shape = [16, 10], vals = 1 # replicate 159 0\<rparr> (zeros [10])) \<theta>)
                  (zeros [1, 28, 28, 1]) [0]) 2
            (variable_values (model (zeros [784, 16]) \<lparr>shape = [16], vals = 1 # replicate 15 0\<rparr> (zeros [16, 16])
                        \<lparr>shape = [16], vals = replicate 16 1\<rparr>
                        \<lparr>shape = [16, 10], vals = 1 # replicate 159 0\<rparr> (zeros [10])))
            (tget T [0, 0, 0, 0]) \<and>
          tget H [1 * 16 + 2, 3 * 16 + 4] = tget T [1, 2, 3, 4] \<and>
          has_partials [3 * 16 + 4, 1 * 16 + 2]
            (\<lambda>\<theta>. loss numeric (with_values (model (zeros [784, 16]) \<lparr>shape = [16], vals = 1 # replicate 15 0\<rparr> (zeros [16, 16])
                        \<lparr>shape = [16], vals = replicate 16 1\<rparr>
                        \<lparr>shape = [16, 10], vals = 1 # replicate 159 0\<rparr> (zeros [10])) \<theta>)
                  (zeros [1, 28, 28, 1]) [0]) 2
            (variable_values (model (zeros [784, 16]) \<lparr>shape = [16], vals = 1 # replicate 15 0\<rparr> (zeros [16, 16])
                        \<lparr>shape = [16], vals = replicate 16 1\<rparr>
                        \<lparr>shape = [16, 10], vals = 1 # replicate 159 0\<rparr> (zeros [10])))
            (tget T [1, 2, 3, 4]))"
proof -
  have t: "trained 784 (zeros [784, 16]) \<lparr>shape = [16], vals = 1 # replicate 15 0\<rparr> (zeros [16, 16])
     \<lparr>shape = [16], vals = replicate 16 (1::real)\<rparr>
     \<lparr>shape = [16, 10], vals = 1 # replicate 159 0\<rparr> (zeros [10])"
    by (simp add: trained_def zeros_def wf_tensor_def)
  have x: "shape (zeros [1, 28, 28, 1] :: real tensor) = 1 # [28, 28, 1]" "prod_list [28, 28, 1] = (784::nat)"
    "wf_tensor (zeros [1, 28, 28, 1] :: real tensor)"
    by (simp_all add: zeros_def wf_tensor_def)
  have y: "\<forall>s<1. [0::nat] ! s < 10" by simp
  have z: "0 \<notin> set (vals (tadd (matmul (call numeric (Dense 16 (Some ReLU) (zeros [784, 16])
                                          \<lparr>shape = [16], vals = 1 # replicate 15 0\<rparr>)
                                        (call numeric Flatten (zeros [1, 28, 28, 1]))) (zeros [16, 16]))
                         \<lparr>shape = [16], vals = replicate 16 (1::real)\<rparr>))"
    unfolding first_unit_preactivation by simp
  have i: "(1::nat) < 16" "(2::nat) < 16" "(3::nat) < 16" "(4::nat) < 16" by simp_all
  have o: "(0::nat) < 16" by simp
  obtain T H where a: "T2_compute (model (zeros [784, 16]) \<lparr>shape = [16], vals = 1 # replicate 15 0\<rparr> (zeros [16, 16])
                        \<lparr>shape = [16], vals = replicate 16 1\<rparr>
                        \<lparr>shape = [16, 10], vals = 1 # replicate 159 0\<rparr> (zeros [10]))
             (zeros [1, 28, 28, 1]) [0] (- 4) = Inr T" "shape T = [16, 16, 16, 16]"
      "hessian (model (zeros [784, 16]) \<lparr>shape = [16], vals = 1 # replicate 15 0\<rparr> (zeros [16, 16])
                        \<lparr>shape = [16], vals = replicate 16 1\<rparr>
                        \<lparr>shape = [16, 10], vals = 1 # replicate 159 0\<rparr> (zeros [10]))
             (zeros [1, 28, 28, 1]) [0] = Inr H" "shape H = [256, 256]"
      "tget H [1 * 16 + 2, 3 * 16 + 4] = tget T [1, 2, 3, 4]"
      "has_partials [3 * 16 + 4, 1 * 16 + 2]
            (\<lambda>\<theta>. loss numeric (with_values (model (zeros [784, 16]) \<lparr>shape = [16], vals = 1 # replicate 15 0\<rparr> (zeros [16, 16])
                        \<lparr>shape = [16], vals = replicate 16 1\<rparr>
                        \<lparr>shape = [16, 10], vals = 1 # replicate 159 0\<rparr> (zeros [10])) \<theta>)
                  (zeros [1, 28, 28, 1]) [0]) 2
            (variable_values (model (zeros [784, 16]) \<lparr>shape = [16], vals = 1 # replicate 15 0\<rparr> (zeros [16, 16])
                        \<lparr>shape = [16], vals = replicate 16 1\<rparr>
                        \<lparr>shape = [16, 10], vals = 1 # replicate 159 0\<rparr> (zeros [10])))
            (tget T [1, 2, 3, 4])"
    using T2_compute_second_derivative [OF t x y i] z by blast
  obtain T' H' where b: "T2_compute (model (zeros [784, 16]) \<lparr>shape = [16], vals = 1 # replicate 15 0\<rparr> (zeros [16, 16])
                        \<lparr>shape = [16], vals = replicate 16 1\<rparr>
                        \<lparr>shape = [16, 10], vals = 1 # replicate 159 0\<rparr> (zeros [10]))
             (zeros [1, 28, 28, 1]) [0] (- 4) = Inr T'"
      "hessian (model (zeros [784, 16]) \<lparr>shape = [16], vals = 1 # replicate 15 0\<rparr> (zeros [16, 16])
                        \<lparr>shape = [16], vals = replicate 16 1\<rparr>
                        \<lparr>shape = [16, 10], vals = 1 # replicate 159 0\<rparr> (zeros [10]))
             (zeros [1, 28, 28, 1]) [0] = Inr H'"
      "tget H' [0 * 16 + 0, 0 * 16 + 0] = tget T' [0, 0, 0, 0]"
      "has_partials [0 * 16 + 0, 0 * 16 + 0]
            (\<lambda>\<theta>. loss numeric (with_values (model (zeros [784, 16]) \<lparr>shape = [16], vals = 1 # replicate 15 0\<rparr> (zeros [16, 16])
                        \<lparr>shape = [16], vals = replicate 16 1\<rparr>
                        \<lparr>shape = [16, 10], vals = 1 # replicate 159 0\<rparr> (zeros [10])) \<theta>)
                  (zeros [1, 28, 28, 1]) [0]) 2
            (variable_values (model (zeros [784, 16]) \<lparr>shape = [16], vals = 1 # replicate 15 0\<rparr> (zeros [16, 16])
                        \<lparr>shape = [16], vals = replicate 16 1\<rparr>
                        \<lparr>shape = [16, 10], vals = 1 # replicate 159 0\<rparr> (zeros [10])))
            (tget T' [0, 0, 0, 0])"
    using T2_compute_second_derivative [OF t x y o o o o] z by blast
  have e: "T' = T" "H' = H" using a(1,3) b(1,2) by simp_all
  show ?thesis
    apply (intro conjI t x(3) z)
    apply (rule exI [of _ T])
    apply (rule exI [of _ H])
    apply (intro conjI a b [unfolded e])
    done
qed

text \<open>
  Claim C3 as stated fails at a kink of the rectifier. With a blank image, first-layer
  kernel zero and bias \<open>(1, 0, ..., 0)\<close>, second-layer kernel and bias zero and
  last-layer kernel \<open>W3[0,0] = 1\<close> (zero elsewhere), every pre-activation of the second
  hidden layer is 0. Along \<open>W[0,0] = t\<close> the loss for label 0 is
  \<open>ln (exp (relu t) + 9) - relu t\<close>, with slope 0 on the left of \<open>t = 0\<close> and \<open>-9/10\<close> on
  the right: the partial derivative with respect to \<open>W[0,0]\<close> does not exist there, nor
  the second one, while \<open>T2_compute\<close> returns a tensor.
\<close>

theorem T2_compute_kink_counterexample:
  "trained 784 (zeros [784, 16]) \<lparr>shape = [16], vals = 1 # replicate 15 0\<rparr> (zeros [16, 16]) (zeros [16])
     \<lparr>shape = [16, 10], vals = 1 # replicate 159 (0::real)\<rparr> (zeros [10]) \<and>
   0 \<in> set (vals (tadd (matmul (call numeric (Dense 16 (Some ReLU) (zeros [784, 16])
                                     \<lparr>shape = [16], vals = 1 # replicate 15 (0::real)\<rparr>)
                                  (call numeric Flatten (zeros [1, 28, 28, 1])))
                          (zeros [16, 16])) (zeros [16]))) \<and>
   (\<exists>T H. T2_compute (model (zeros [784, 16]) \<lparr>shape = [16], vals = 1 # replicate 15 0\<rparr> (zeros [16, 16])
                        (zeros [16]) \<lparr>shape = [16, 10], vals = 1 # replicate 159 0\<rparr> (zeros [10]))
             (zeros [1, 28, 28, 1]) [0] (- 4) = Inr T \<and> shape T = [16, 16, 16, 16] \<and>
          hessian (model (zeros [784, 16]) \<lparr>shape = [16], vals = 1 # replicate 15 0\<rparr> (zeros [16, 16])
                        (zeros [16]) \<lparr>shape = [16, 10], vals = 1 # replicate 159 0\<rparr> (zeros [10]))
             (zeros [1, 28, 28, 1]) [0] = Inr H \<and> shape H = [256, 256] \<and>
          \<not> has_partials [0, 0]
              (\<lambda>\<theta>. loss numeric (with_values (model (zeros [784, 16]) \<lparr>shape = [16], vals = 1 # replicate 15 0\<rparr>
                        (zeros [16, 16]) (zeros [16]) \<lparr>shape = [16, 10], vals = 1 # replicate 159 0\<rparr> (zeros [10])) \<theta>)
                     (zeros [1, 28, 28, 1]) [0]) 2
              (variable_values (model (zeros [784, 16]) \<lparr>shape = [16], vals = 1 # replicate 15 0\<rparr>
                        (zeros [16, 16]) (zeros [16]) \<lparr>shape = [16, 10], vals = 1 # replicate 159 0\<rparr> (zeros [10])))
              (tget H [0, 0])) \<and>
   (\<forall>t. loss numeric (with_values (model (zeros [784, 16]) \<lparr>shape = [16], vals = 1 # replicate 15 0\<rparr>
                        (zeros [16, 16]) (zeros [16]) \<lparr>shape = [16, 10], vals = 1 # replicate 159 0\<rparr> (zeros [10]))
                (shift (variable_values (model (zeros [784, 16]) \<lparr>shape = [16], vals = 1 # replicate 15 0\<rparr>
                        (zeros [16, 16]) (zeros [16]) \<lparr>shape = [16, 10], vals = 1 # replicate 159 0\<rparr> (zeros [10])))
                   2 0 t))
           (zeros [1, 28, 28, 1]) [0]
        = ln (exp (relu t) + 9) - relu t) \<and>
   (\<forall>D. \<not> has_partials [0]
              (\<lambda>\<theta>. loss numeric (with_values (model (zeros [784, 16]) \<lparr>shape = [16], vals = 1 # replicate 15 0\<rparr>
                        (zeros [16, 16]) (zeros [16]) \<lparr>shape = [16, 10], vals = 1 # replicate 159 0\<rparr> (zeros [10])) \<theta>)
                     (zeros [1, 28, 28, 1]) [0]) 2
              (variable_values (model (zeros [784, 16]) \<lparr>shape = [16], vals = 1 # replicate 15 0\<rparr>
                        (zeros [16, 16]) (zeros [16]) \<lparr>shape = [16, 10], vals = 1 # replicate 159 0\<rparr> (zeros [10])))
              D) \<and>
   (\<forall>D. \<not> has_partials [0, 0]
              (\<lambda>\<theta>. loss numeric (with_values (model (zeros [784, 16]) \<lparr>shape = [16], vals = 1 # replicate 15 0\<rparr>
                        (zeros [16, 16]) (zeros [16]) \<lparr>shape = [16, 10], vals = 1 # replicate 159 0\<rparr> (zeros [10])) \<theta>)
                     (zeros [1, 28, 28, 1]) [0]) 2
              (variable_values (model (zeros [784, 16]) \<lparr>shape = [16], vals = 1 # replicate 15 0\<rparr>
                        (zeros [16, 16]) (zeros [16]) \<lparr>shape = [16, 10], vals = 1 # replicate 159 0\<rparr> (zeros [10])))
              D)"
proof -
  let ?B1 = "\<lparr>shape = [16], vals = (1::real) # replicate 15 0\<rparr>"
  let ?K3 = "\<lparr>shape = [16, 10], vals = (1::real) # replicate 159 0\<rparr>"
  let ?X0 = "zeros [1, 28, 28, 1] :: real tensor"
  let ?m = "model (zeros [784, 16]) ?B1 (zeros [16, 16]) (zeros [16]) ?K3 (zeros [10])"
  let ?\<theta> = "variable_values ?m"
  let ?F = "\<lambda>\<theta>. loss numeric (with_values ?m \<theta>) ?X0 [0]"
  have tr: "trained 784 (zeros [784, 16]) ?B1 (zeros [16, 16]) (zeros [16]) ?K3 (zeros [10])"
    by (simp add: trained_def zeros_def wf_tensor_def)
  have wf: "wf_tensor (zeros [784, 16] :: real tensor)" "wf_tensor ?B1"
    "wf_tensor (zeros [16, 16] :: real tensor)" "wf_tensor (zeros [16] :: real tensor)"
    "wf_tensor ?K3" "wf_tensor (zeros [10] :: real tensor)"
    using tr by (simp_all add: trained_def)
  have pre: "0 \<in> set (vals (tadd (matmul (call numeric (Dense 16 (Some ReLU) (zeros [784, 16]) ?B1)
                                  (call numeric Flatten ?X0)) (zeros [16, 16])) (zeros [16])))"
    using first_unit_preactivation [of 0] by (simp add: zeros_def)
  have kl: "?F (shift ?\<theta> 2 0 t) = ln (exp (relu t) + 9) - relu t" for t
  proof -
    have "with_values ?m (shift ?\<theta> 2 0 t)
          = model (zeros [784, 16]) ?B1 \<lparr>shape = [16, 16], vals = (replicate 256 0)[0 := t]\<rparr>
              (zeros [16]) ?K3 (zeros [10])"
      by (subst with_values_shift [OF wf]) (simp_all add: zeros_def)
    then show ?thesis by (simp only: kink_loss)
  qed
  have n1: "\<not> has_partials [0] ?F 2 ?\<theta> D" for D
  proof
    assume "has_partials [0] ?F 2 ?\<theta> D"
    then have "((\<lambda>t. ?F (shift ?\<theta> 2 0 t)) has_real_derivative D) (at 0)"
      by (rule has_partials_single)
    then show False unfolding kl using kink_not_differentiable by blast
  qed
  have n2: "\<not> has_partials [0, 0] ?F 2 ?\<theta> D" for D
    using has_partials_inner [of 0 "[0]" ?F 2 ?\<theta> D] n1 by blast
  obtain T where T: "T2_compute ?m ?X0 [0] (- 4) = Inr T" "shape T = [16, 16, 16, 16]"
    using T2_compute_entry [of "zeros [16, 16]" 0 0 "zeros [784, 16]" ?B1 "zeros [16]" ?K3 "zeros [10]" ?X0 "[0]"]
    by (auto simp: zeros_def)
  obtain H where H: "hessian ?m ?X0 [0] = Inr H" "shape H = [256, 256]"
    using hessian_entry [of "zeros [16, 16]" 0 0 "zeros [784, 16]" ?B1 "zeros [16]" ?K3 "zeros [10]" ?X0 "[0]"]
    by (auto simp: zeros_def)
  show ?thesis
    apply (intro conjI tr pre allI kl n1 n2)
    apply (rule exI [of _ T])
    apply (rule exI [of _ H])
    apply (intro conjI T H n2)
    done
qed

section \<open>The derivative tensors computed by T4_compute\<close>























section \<open>Properties of the coefficient extraction\<close>

lemmas tdot = tensordot_def tensordot_reshape_def reshape_def matmul_def transpose_t_def
  tget_def lsum_def pos_def Let_def upt_small

lemma e2_val: "e2 = \<lparr>shape = [2, 2], vals = [1, 0, 0, 0]\<rparr>"
  by (simp add: e2_def e_vec_def tdot)

lemma f2_val: "f2 = \<lparr>shape = [2, 2], vals = [0, 0, 0, 1]\<rparr>"
  by (simp add: f2_def f_vec_def tdot)

lemma ef2_val: "ef2 = \<lparr>shape = [2, 2, 2], vals = [0, 0, 0, 1, 0, 0, 0, 0]\<rparr>"
  by (simp add: ef2_def f2_val e_vec_def tdot)

lemma f4_val: "f4 = \<lparr>shape = [2, 2, 2, 2], vals = [0, 0, 0, 0, 0, 0, 0, 0, 0, 0, 0, 0, 0, 0, 0, 1]\<rparr>"
  by (simp add: f4_def f2_val tdot)

lemma list_nths: "length xs = n \<Longrightarrow> map ((!) xs) [0..<n] = xs"
  by (auto intro: nth_equalityI)

lemma list4: "length xs = 4 \<Longrightarrow> \<exists>a b c d. xs = [a, b, c, d]"
  using list_nths [of xs 4] unfolding upt_small list.map by metis

lemma list8: "length xs = 8 \<Longrightarrow> \<exists>a b c d a' b' c' d'. xs = [a, b, c, d, a', b', c', d']"
  using list_nths [of xs 8] unfolding upt_small list.map by metis

lemma list16:
  "length xs = 16 \<Longrightarrow> \<exists>a b c d a' b' c' d' p q r s p' q' r' s'.
     xs = [a, b, c, d, a', b', c', d', p, q, r, s, p', q', r', s']"
  using list_nths [of xs 16] unfolding upt_small list.map by metis


lemma coeff_T2_val:
  assumes "shape T2 = [2, 2]" and "length (vals T2) = 4"
  shows "coeff_T2 T2 = \<lparr>shape = [], vals = [1 / 2 * tget T2 [0, 0]]\<rparr>"
proof -
  obtain a b c d where "vals T2 = [a, b, c, d]" using list4 [OF assms(2)] by blast
  then show ?thesis using assms(1) by (simp add: coeff_T2_def e2_val smul_def tdot)
qed

lemma coeff_T3_val:
  assumes "shape T3 = [2, 2, 2]" and "length (vals T3) = 8"
  shows "coeff_T3 T3 = \<lparr>shape = [], vals = [1 / 2 * tget T3 [0, 1, 1]]\<rparr>"
proof -
  obtain a b c d a' b' c' d' where "vals T3 = [a, b, c, d, a', b', c', d']" using list8 [OF assms(2)] by blast
  then show ?thesis using assms(1) by (simp add: coeff_T3_def ef2_val smul_def tdot)
qed

lemma coeff_T4_val:
  assumes "shape T4 = [2, 2, 2, 2]" and "length (vals T4) = 16"
  shows "coeff_T4 T4 = \<lparr>shape = [], vals = [1 / 24 * tget T4 [1, 1, 1, 1]]\<rparr>"
proof -
  obtain a b c d a' b' c' d' p q r s p' q' r' s' where "vals T4 = [a, b, c, d, a', b', c', d', p, q, r, s, p', q', r', s']" using list16 [OF assms(2)] by blast
  then show ?thesis using assms(1) by (simp add: coeff_T4_def f4_val smul_def tdot)
qed

text \<open>
  Claim C5. The three contractions of the notebook give one scalar each:
  \<open>coeff_T2 = 1/2 * T2[0,0]\<close>, \<open>coeff_T3 = 1/2 * T3[0,1,1]\<close> and
  \<open>coeff_T4 = 1/24 * T4[1,1,1,1]\<close>.
\<close>

theorem coefficient_extraction:
  assumes "shape T2 = [2, 2]" and "length (vals T2) = 4"
    and "shape T3 = [2, 2, 2]" and "length (vals T3) = 8"
    and "shape T4 = [2, 2, 2, 2]" and "length (vals T4) = 16"
  shows "coeff_T2 T2 = \<lparr>shape = [], vals = [1 / 2 * tget T2 [0, 0]]\<rparr> \<and>
         coeff_T3 T3 = \<lparr>shape = [], vals = [1 / 2 * tget T3 [0, 1, 1]]\<rparr> \<and>
         coeff_T4 T4 = \<lparr>shape = [], vals = [1 / 24 * tget T4 [1, 1, 1, 1]]\<rparr>"
  using coeff_T2_val [OF assms(1,2)] coeff_T3_val [OF assms(3,4)] coeff_T4_val [OF assms(5,6)]
  by simp

theorem coefficient_extraction_witness:
  "coeff_T2 \<lparr>shape = [2, 2], vals = [6, 1, 1, 2]\<rparr> = \<lparr>shape = [], vals = [3]\<rparr> \<and>
   coeff_T3 \<lparr>shape = [2, 2, 2], vals = [1, 2, 3, 8, 5, 6, 7, 9]\<rparr> = \<lparr>shape = [], vals = [4]\<rparr> \<and>
   coeff_T4 \<lparr>shape = [2, 2, 2, 2], vals = [1, 2, 3, 4, 5, 6, 7, 8, 9, 10, 11, 12, 13, 14, 15, 48]\<rparr>
     = \<lparr>shape = [], vals = [2]\<rparr>"
  using coefficient_extraction [of "\<lparr>shape = [2, 2], vals = [6, 1, 1, 2]\<rparr>"
      "\<lparr>shape = [2, 2, 2], vals = [1, 2, 3, 8, 5, 6, 7, 9]\<rparr>"
      "\<lparr>shape = [2, 2, 2, 2], vals = [1, 2, 3, 4, 5, 6, 7, 8, 9, 10, 11, 12, 13, 14, 15, 48]\<rparr>"]
  by (simp add: tget_def)

end
